theory Spec2Isabelle
  imports Complex_Main "HOL-Library.Product_Lexorder"
begin


section \<open>Data model: the five tables of ecommerce.db\<close>

text \<open>
  The schema is the one created by \<^verbatim>\<open>ingest_to_sqlite.py\<close>. INTEGER columns are
  \<^typ>\<open>int\<close>, TEXT columns are \<^typ>\<open>string\<close>. REAL columns are IEEE doubles in
  SQLite and Python; they are idealised here as exact rationals, so no statement below
  speaks about floating-point rounding error. A DATE column holds the text that
  \<^verbatim>\<open>date.isoformat()\<close> wrote, \<^verbatim>\<open>YYYY-MM-DD\<close>; it is kept as its three numeric
  fields. Fields carry the alias of their table in the queries (\<^verbatim>\<open>o.order_id\<close> is
  \<open>o_order_id\<close>), since several tables share a column name.
\<close>

record date =
  d_year :: nat
  d_month :: nat
  d_day :: nat

record customer =
  c_customer_id :: int
  c_customer_name :: string
  c_email :: string
  c_phone_number :: string
  c_city :: string
  c_country :: string

record product =
  pr_product_id :: int
  pr_product_name :: string
  pr_category :: string
  pr_price :: rat

record order =
  o_order_id :: int
  o_customer_id :: int
  o_order_date :: date
  o_status :: string

record order_item =
  oi_item_id :: int
  oi_order_id :: int
  oi_product_id :: int
  oi_quantity :: int
  oi_price :: rat

record payment =
  p_payment_id :: int
  p_amount :: rat
  p_order_id :: int
  p_payment_method :: string
  p_payment_date :: date

text \<open>
  Every table has an INTEGER PRIMARY KEY, so SQLite stores it as a b-tree on that key:
  a table is the list of its rows in the order of a table scan, which is ascending key
  order, and no two rows share a key.
\<close>

record database =
  customers :: "customer list"
  products :: "product list"
  orders :: "order list"
  order_items :: "order_item list"
  payments :: "payment list"

definition rowid_table :: "('r \<Rightarrow> int) \<Rightarrow> 'r list \<Rightarrow> bool" where
  "rowid_table key rows \<longleftrightarrow> sorted_wrt (<) (map key rows)"

definition wf_database :: "database \<Rightarrow> bool" where
  "wf_database db \<longleftrightarrow>
     rowid_table c_customer_id (customers db) \<and>
     rowid_table pr_product_id (products db) \<and>
     rowid_table o_order_id (orders db) \<and>
     rowid_table oi_item_id (order_items db) \<and>
     rowid_table p_payment_id (payments db)"

section \<open>SQL operators used by the queries\<close>

text \<open>A nullable value is an \<open>option\<close>; \<open>None\<close> is NULL.\<close>

definition coalesce :: "'a option \<Rightarrow> 'a \<Rightarrow> 'a" where
  "coalesce v d = (case v of None \<Rightarrow> d | Some x \<Rightarrow> x)"

text \<open>SUM skips NULLs and is NULL when no row contributes a value.\<close>

definition sql_sum :: "rat option list \<Rightarrow> rat option" where
  "sql_sum vs = (case List.map_filter id vs of [] \<Rightarrow> None | ws \<Rightarrow> Some (sum_list ws))"

text \<open>
  \<^verbatim>\<open>a LEFT JOIN b ON cond\<close>, seen from one row of \<open>a\<close>: the matching rows of \<open>b\<close>,
  or a single all-NULL row when there is none.
\<close>

definition left_join :: "('b \<Rightarrow> bool) \<Rightarrow> 'b list \<Rightarrow> 'b option list" where
  "left_join cond bs = (case filter cond bs of [] \<Rightarrow> [None] | ms \<Rightarrow> map Some ms)"

text \<open>
  ROUND(x, 2) rounds to two decimals, halves away from zero (on the exact value; SQLite
  works on the double).
\<close>

definition sql_round2 :: "rat \<Rightarrow> rat" where
  "sql_round2 x =
     (if 0 \<le> x then of_int \<lfloor>x * 100 + 1 / 2\<rfloor> / 100
      else - (of_int \<lfloor>- x * 100 + 1 / 2\<rfloor> / 100))"

definition line_total :: "order_item \<Rightarrow> rat" where
  "line_total oi = of_int (oi_quantity oi) * oi_price oi"

section \<open>Exceptions\<close>

text \<open>
  The scripts catch nothing but the one \<^verbatim>\<open>ValueError\<close> of the date fallback: any other
  exception ends the run. A script that can raise returns \<open>Inl\<close> of the exception.
\<close>

datatype py_error = ZeroDivisionError | TypeError | ValueError | OverflowError

section \<open>check_payment_amounts.py\<close>

record recon_row =
  r_order_id :: int
  r_order_date :: date
  r_status :: string
  order_total :: rat
  payment_amount :: "rat option"
  status_check :: string
  difference :: "rat option"

text \<open>
  The rows of \<^verbatim>\<open>orders o LEFT JOIN order_items oi ... LEFT JOIN payments p ...\<close>.
\<close>

definition recon_join :: "database \<Rightarrow> (order \<times> order_item option \<times> payment option) list" where
  "recon_join db =
     [(od, oi, p).
        od \<leftarrow> orders db,
        oi \<leftarrow> left_join (\<lambda>oi. o_order_id od = oi_order_id oi) (order_items db),
        p \<leftarrow> left_join (\<lambda>p. o_order_id od = p_order_id p) (payments db)]"

text \<open>\<^verbatim>\<open>GROUP BY o.order_id, o.order_date, o.status, p.amount\<close>\<close>

definition recon_key ::
    "order \<times> order_item option \<times> payment option \<Rightarrow> int \<times> date \<times> string \<times> rat option" where
  "recon_key j = (case j of (od, oi, p) \<Rightarrow>
     (o_order_id od, o_order_date od, o_status od, map_option p_amount p))"

text \<open>
  The select list over one group. \<open>difference\<close> is NULL when \<open>p.amount\<close> is, and a
  CASE whose WHEN condition is NULL takes its ELSE branch.
\<close>

definition recon_select ::
    "int \<times> date \<times> string \<times> rat option \<Rightarrow>
     (order \<times> order_item option \<times> payment option) list \<Rightarrow> recon_row" where
  "recon_select k grp = (case k of (oid, odate, ostatus, amt) \<Rightarrow>
     (let total = coalesce (sql_sum (map (\<lambda>(od, oi, p). map_option line_total oi) grp)) 0;
          diff = map_option (\<lambda>a. \<bar>total - a\<bar>) amt
      in \<lparr> r_order_id = oid, r_order_date = odate, r_status = ostatus,
           order_total = total, payment_amount = amt,
           status_check = (case diff of
                             Some d \<Rightarrow> if d < 1 / 100 then ''MATCH'' else ''MISMATCH''
                           | None \<Rightarrow> ''MISMATCH''),
           difference = diff \<rparr>))"

text \<open>
  The first query of the script. Groups come out ordered by \<open>o.order_id\<close>; rows of
  one order (one per distinct payment amount) keep the order of the join.
\<close>

definition status_check_query :: "database \<Rightarrow> recon_row list" where
  "status_check_query db =
     (let joined = recon_join db;
          keys = sort_key fst (remdups (map recon_key joined))
      in map (\<lambda>k. recon_select k (filter (\<lambda>j. recon_key j = k) joined)) keys)"

text \<open>The statistics the script prints from the fetched rows.\<close>

definition total_orders :: "recon_row list \<Rightarrow> nat" where
  "total_orders results = length results"

definition matching :: "recon_row list \<Rightarrow> nat" where
  "matching results = length (filter (\<lambda>row. status_check row = ''MATCH'') results)"

definition mismatching :: "recon_row list \<Rightarrow> nat" where
  "mismatching results = total_orders results - matching results"

text \<open>
  \<^verbatim>\<open>... WHERE p.payment_id IS NULL GROUP BY o.order_id\<close>: what the second statement
  returns when it is executed. Whether the script gets that far is settled by
  \<open>check_payment_amounts\<close> below.
\<close>

definition no_payment_query :: "database \<Rightarrow> (int \<times> rat) list" where
  "no_payment_query db =
     (let joined = filter (\<lambda>(od, oi, p). map_option p_payment_id p = None) (recon_join db);
          keys = remdups (map (\<lambda>(od, oi, p). o_order_id od) joined)
      in map (\<lambda>k. (k, coalesce (sql_sum (map (\<lambda>(od, oi, p). map_option line_total oi)
                                   (filter (\<lambda>(od, oi, p). o_order_id od = k) joined))) 0))
             keys)"

text \<open>
  \<^verbatim>\<open>payments p LEFT JOIN orders o ON p.order_id = o.order_id WHERE o.order_id IS NULL\<close>:
  what the third statement returns when it is executed.
\<close>

definition orphan_payments_query :: "database \<Rightarrow> (int \<times> int \<times> rat) list" where
  "orphan_payments_query db =
     [(p_payment_id p, p_order_id p, p_amount p).
        p \<leftarrow> payments db,
        od \<leftarrow> left_join (\<lambda>od. p_order_id p = o_order_id od) (orders db),
        map_option o_order_id od = None]"

text \<open>
  The script as a whole. After the first query it prints the statistics, dividing by
  \<open>total_orders\<close>: with no order at all that is a ZeroDivisionError. It then prints
  every row, formatting \<open>difference\<close> with \<^verbatim>\<open>.2f\<close>: on a row whose difference is NULL
  (Python's \<^verbatim>\<open>None\<close>) that is a TypeError. Only a run that passes both executes the
  second and the third statement.
\<close>

record report =
  rep_results :: "recon_row list"
  rep_matching :: nat
  rep_mismatching :: nat
  rep_no_payment :: "(int \<times> rat) list"
  rep_orphan_payments :: "(int \<times> int \<times> rat) list"

definition check_payment_amounts :: "database \<Rightarrow> py_error + report" where
  "check_payment_amounts db =
     (let results = status_check_query db
      in if total_orders results = 0 then Inl ZeroDivisionError
         else if \<exists>row\<in>set results. difference row = None then Inl TypeError
         else Inr \<lparr> rep_results = results,
                    rep_matching = matching results,
                    rep_mismatching = mismatching results,
                    rep_no_payment = no_payment_query db,
                    rep_orphan_payments = orphan_payments_query db \<rparr>)"

section \<open>Example databases\<close>

text \<open>
  Three orders: order 1 is paid in full, order 2 is overpaid by 0.50, order 3 has neither
  items nor a payment; payment 3 points at an order that does not exist.
\<close>

definition sample_db :: database where
  "sample_db = \<lparr>
     customers = [\<lparr>c_customer_id = 1, c_customer_name = ''Ann Lee'', c_email = ''ann@example.org'',
                   c_phone_number = ''555-0100'', c_city = ''Pune'', c_country = ''India''\<rparr>],
     products = [\<lparr>pr_product_id = 1, pr_product_name = ''Lamp'', pr_category = ''Home & Kitchen'',
                  pr_price = 21 / 2\<rparr>],
     orders = [\<lparr>o_order_id = 1, o_customer_id = 1,
                 o_order_date = \<lparr>d_year = 2006, d_month = 1, d_day = 5\<rparr>, o_status = ''shipped''\<rparr>,
               \<lparr>o_order_id = 2, o_customer_id = 1,
                 o_order_date = \<lparr>d_year = 2006, d_month = 2, d_day = 10\<rparr>, o_status = ''pending''\<rparr>,
               \<lparr>o_order_id = 3, o_customer_id = 1,
                 o_order_date = \<lparr>d_year = 2006, d_month = 2, d_day = 20\<rparr>, o_status = ''pending''\<rparr>],
     order_items = [\<lparr>oi_item_id = 1, oi_order_id = 1, oi_product_id = 1, oi_quantity = 2, oi_price = 21 / 2\<rparr>,
                    \<lparr>oi_item_id = 2, oi_order_id = 2, oi_product_id = 1, oi_quantity = 1, oi_price = 30\<rparr>,
                    \<lparr>oi_item_id = 3, oi_order_id = 2, oi_product_id = 1, oi_quantity = 3, oi_price = 5\<rparr>],
     payments = [\<lparr>p_payment_id = 1, p_amount = 21, p_order_id = 1, p_payment_method = ''UPI'',
                  p_payment_date = \<lparr>d_year = 2006, d_month = 1, d_day = 6\<rparr>\<rparr>,
                 \<lparr>p_payment_id = 2, p_amount = 91 / 2, p_order_id = 2, p_payment_method = ''Card'',
                  p_payment_date = \<lparr>d_year = 2006, d_month = 2, d_day = 10\<rparr>\<rparr>,
                 \<lparr>p_payment_id = 3, p_amount = 5, p_order_id = 9, p_payment_method = ''Wallet'',
                  p_payment_date = \<lparr>d_year = 2006, d_month = 3, d_day = 1\<rparr>\<rparr>] \<rparr>"

text \<open>One order of one item worth 10.00, paid by two payment rows of 10.00 each.\<close>

definition dup_payment_db :: database where
  "dup_payment_db = \<lparr>
     customers = [],
     products = [],
     orders = [\<lparr>o_order_id = 1, o_customer_id = 1,
                 o_order_date = \<lparr>d_year = 2006, d_month = 1, d_day = 5\<rparr>, o_status = ''shipped''\<rparr>],
     order_items = [\<lparr>oi_item_id = 1, oi_order_id = 1, oi_product_id = 1, oi_quantity = 1, oi_price = 10\<rparr>],
     payments = [\<lparr>p_payment_id = 1, p_amount = 10, p_order_id = 1, p_payment_method = ''UPI'',
                  p_payment_date = \<lparr>d_year = 2006, d_month = 1, d_day = 6\<rparr>\<rparr>,
                 \<lparr>p_payment_id = 2, p_amount = 10, p_order_id = 1, p_payment_method = ''Card'',
                  p_payment_date = \<lparr>d_year = 2006, d_month = 1, d_day = 7\<rparr>\<rparr>] \<rparr>"

section \<open>Monthly revenue: the CTE shared by the sales-forecast scripts\<close>

text \<open>
  \<^verbatim>\<open>strftime('%Y-%m', o.order_date)\<close> is the text \<^verbatim>\<open>YYYY-MM\<close>, \<^verbatim>\<open>strftime('%Y', ...)\<close> the
  text \<^verbatim>\<open>YYYY\<close>, \<^verbatim>\<open>strftime('%m', ...)\<close> the text \<^verbatim>\<open>MM\<close>. For the dates SQLite accepts
  (years 0000 to 9999) these texts and the numbers they spell determine each other and
  are ordered alike, so the month key is kept as the pair of year and month and the year
  as a number. That the year is TEXT matters in one comparison of the self-join; see
  \<open>text_eq_integer\<close> below.
\<close>

definition strftime_Ym :: "date \<Rightarrow> nat \<times> nat" where
  "strftime_Ym d = (d_year d, d_month d)"

definition strftime_Y :: "date \<Rightarrow> nat" where
  "strftime_Y d = d_year d"

definition strftime_m :: "date \<Rightarrow> nat" where
  "strftime_m d = d_month d"

record month_row =
  m_month :: "nat \<times> nat"
  m_year :: nat
  m_month_num :: int
  m_total_revenue :: rat
  m_order_count :: nat

text \<open>\<^verbatim>\<open>orders o INNER JOIN order_items oi ON o.order_id = oi.order_id\<close>\<close>

definition order_lines :: "database \<Rightarrow> (order \<times> order_item) list" where
  "order_lines db =
     [(od, oi).
        od \<leftarrow> orders db,
        oi \<leftarrow> filter (\<lambda>oi. o_order_id od = oi_order_id oi) (order_items db)]"

text \<open>
  One group of \<^verbatim>\<open>GROUP BY strftime('%Y-%m', o.order_date)\<close>. \<open>year\<close> and
  \<open>month_num\<close> are bare columns of an aggregate query: SQLite evaluates them on one row
  of the group. A group is never empty.
\<close>

definition month_select :: "nat \<times> nat \<Rightarrow> (order \<times> order_item) list \<Rightarrow> month_row" where
  "month_select k grp =
     \<lparr> m_month = k,
       m_year = strftime_Y (o_order_date (fst (hd grp))),
       m_month_num = int (strftime_m (o_order_date (fst (hd grp)))),
       m_total_revenue = sum_list (map (\<lambda>(od, oi). line_total oi) grp),
       m_order_count = length (remdups (map (\<lambda>(od, oi). o_order_id od) grp)) \<rparr>"

definition monthly_revenue :: "database \<Rightarrow> month_row list" where
  "monthly_revenue db =
     (let joined = order_lines db;
          keys = remdups (map (\<lambda>(od, oi). strftime_Ym (o_order_date od)) joined)
      in map (\<lambda>k. month_select k (filter (\<lambda>(od, oi). strftime_Ym (o_order_date od) = k) joined)) keys)"

text \<open>\<^verbatim>\<open>ORDER BY year, month_num\<close>\<close>

definition by_year_month :: "month_row list \<Rightarrow> month_row list" where
  "by_year_month ms = sort_key (\<lambda>m. (m_year m, m_month_num m)) ms"

section \<open>run_sales_forecast_simple.py: the trend query with LAG\<close>

text \<open>
  The trend column is one of the texts \<^verbatim>\<open>Growing\<close>, \<^verbatim>\<open>Declining\<close>, \<^verbatim>\<open>Stable\<close>
  (each behind an arrow character) or \<^verbatim>\<open>N/A\<close>.
\<close>

datatype trend = Growing | Declining | Stable | NotAvailable

record trend_row =
  t_month :: "nat \<times> nat"
  t_monthly_revenue :: rat
  t_order_count :: nat
  t_previous_month_revenue :: rat
  t_revenue_change :: rat
  t_percent_change :: rat
  t_trend :: trend

record lag_row = trend_row +
  forecast_next_month :: rat

text \<open>\<^verbatim>\<open>LAG(x) OVER (ORDER BY ...)\<close> on rows already in that order: NULL for the first row.\<close>

fun lag :: "'a option \<Rightarrow> 'a list \<Rightarrow> 'a option list" where
  "lag prev [] = []"
| "lag prev (x # xs) = prev # lag (Some x) xs"

definition monthly_with_previous :: "database \<Rightarrow> (month_row \<times> rat option) list" where
  "monthly_with_previous db =
     (let ms = by_year_month (monthly_revenue db)
      in zip ms (lag None (map m_total_revenue ms)))"

text \<open>AVG over a non-empty window of non-NULL values.\<close>

definition avg :: "rat list \<Rightarrow> rat" where
  "avg xs = sum_list xs / of_nat (length xs)"

text \<open>
  \<open>monthly_trends\<close>: revenue_change, percent_change and the running average
  (\<^verbatim>\<open>ROWS BETWEEN UNBOUNDED PRECEDING AND CURRENT ROW\<close>) of revenue_change.
\<close>

definition revenue_change :: "month_row \<times> rat option \<Rightarrow> rat" where
  "revenue_change mp = m_total_revenue (fst mp) - coalesce (snd mp) 0"

definition percent_change :: "month_row \<times> rat option \<Rightarrow> rat option" where
  "percent_change mp =
     (case snd mp of
        Some previous_month_revenue \<Rightarrow>
          if previous_month_revenue > 0
          then Some (sql_round2 ((m_total_revenue (fst mp) - previous_month_revenue) * 100
                                  / previous_month_revenue))
          else None
      | None \<Rightarrow> None)"

definition monthly_trends :: "database \<Rightarrow> (month_row \<times> rat option \<times> rat) list" where
  "monthly_trends db =
     (let mps = monthly_with_previous db
      in map (\<lambda>i. (fst (mps ! i), snd (mps ! i),
                    sql_round2 (avg (map revenue_change (take (Suc i) mps)))))
             [0..<length mps])"

definition lag_select :: "month_row \<times> rat option \<times> rat \<Rightarrow> lag_row" where
  "lag_select r = (case r of (m, previous_month_revenue, avg_monthly_change) \<Rightarrow>
     (let change = revenue_change (m, previous_month_revenue)
      in \<lparr> t_month = m_month m,
           t_monthly_revenue = sql_round2 (m_total_revenue m),
           t_order_count = m_order_count m,
           t_previous_month_revenue = sql_round2 (coalesce previous_month_revenue 0),
           t_revenue_change = sql_round2 (coalesce (Some change) 0),
           t_percent_change = coalesce (percent_change (m, previous_month_revenue)) 0,
           t_trend = (if change > 0 then Growing else if change < 0 then Declining
                      else if change = 0 then Stable else NotAvailable),
           forecast_next_month =
             sql_round2 (m_total_revenue m + coalesce (Some avg_monthly_change) 0) \<rparr>))"

definition lag_query :: "database \<Rightarrow> lag_row list" where
  "lag_query db = map lag_select (monthly_trends db)"

section \<open>run_sales_forecast_compatible.py and run_sales_forecast_with_graphs.py\<close>

text \<open>
  In the ON condition \<^verbatim>\<open>m2.year = m1.year - 1\<close> the left operand is TEXT (a result of
  strftime) and the right one an INTEGER (arithmetic converts \<^verbatim>\<open>m1.year\<close>). Neither
  is a table column with a declared affinity, so SQLite converts neither and compares the
  storage classes, where every INTEGER sorts before every TEXT: the comparison is false
  whatever the values are.
\<close>

definition text_eq_integer :: "nat \<Rightarrow> int \<Rightarrow> bool" where
  "text_eq_integer year_text n \<longleftrightarrow> False"

definition prev_month_join :: "month_row \<Rightarrow> month_row \<Rightarrow> bool" where
  "prev_month_join m1 m2 \<longleftrightarrow>
     (m_year m2 = m_year m1 \<and> m_month_num m2 = m_month_num m1 - 1) \<or>
     (text_eq_integer (m_year m2) (int (m_year m1) - 1) \<and> m_month_num m1 = 1 \<and> m_month_num m2 = 12)"

definition self_join_select :: "month_row \<times> month_row option \<Rightarrow> trend_row" where
  "self_join_select r = (case r of (m1, m2) \<Rightarrow>
     (let m2_total_revenue = map_option m_total_revenue m2
      in \<lparr> t_month = m_month m1,
           t_monthly_revenue = sql_round2 (m_total_revenue m1),
           t_order_count = m_order_count m1,
           t_previous_month_revenue = sql_round2 (coalesce m2_total_revenue 0),
           t_revenue_change = sql_round2 (m_total_revenue m1 - coalesce m2_total_revenue 0),
           t_percent_change =
             (case m2_total_revenue of
                Some prev \<Rightarrow> if prev > 0
                             then sql_round2 ((m_total_revenue m1 - prev) * 100 / prev) else 0
              | None \<Rightarrow> 0),
           t_trend = (if m_total_revenue m1 - coalesce m2_total_revenue 0 > 0 then Growing
                      else if m_total_revenue m1 - coalesce m2_total_revenue 0 < 0 then Declining
                      else Stable) \<rparr>))"

definition self_join_query :: "database \<Rightarrow> trend_row list" where
  "self_join_query db =
     (let ms = monthly_revenue db
      in map self_join_select
           (sort_key (\<lambda>(m1, m2). (m_year m1, m_month_num m1))
              [(m1, m2). m1 \<leftarrow> ms, m2 \<leftarrow> left_join (prev_month_join m1) ms]))"

text \<open>The forecast, computed in Python from the fetched rows.\<close>

definition revenue_changes :: "trend_row list \<Rightarrow> rat list" where
  "revenue_changes results = [t_revenue_change row. row \<leftarrow> results, t_revenue_change row \<noteq> 0]"

definition avg_growth :: "trend_row list \<Rightarrow> rat" where
  "avg_growth results =
     (let cs = revenue_changes results
      in if cs \<noteq> [] then sum_list cs / of_nat (length cs) else 0)"

definition last_month_revenue :: "trend_row list \<Rightarrow> rat" where
  "last_month_revenue results = (if results \<noteq> [] then t_monthly_revenue (last results) else 0)"

definition sales_forecast :: "database \<Rightarrow> rat list" where
  "sales_forecast db =
     (let results = self_join_query db
      in map (\<lambda>i. last_month_revenue results + avg_growth results * of_nat i) [1, 2, 3])"

text \<open>
  Two months of one order each: 300.00 in January 2006 and 400.00 in February 2006.
\<close>

definition two_month_db :: database where
  "two_month_db = \<lparr>
     customers = [],
     products = [],
     orders = [\<lparr>o_order_id = 1, o_customer_id = 1,
                 o_order_date = \<lparr>d_year = 2006, d_month = 1, d_day = 10\<rparr>, o_status = ''delivered''\<rparr>,
               \<lparr>o_order_id = 2, o_customer_id = 1,
                 o_order_date = \<lparr>d_year = 2006, d_month = 2, d_day = 10\<rparr>, o_status = ''delivered''\<rparr>],
     order_items = [\<lparr>oi_item_id = 1, oi_order_id = 1, oi_product_id = 1, oi_quantity = 1, oi_price = 300\<rparr>,
                    \<lparr>oi_item_id = 2, oi_order_id = 2, oi_product_id = 1, oi_quantity = 1, oi_price = 400\<rparr>],
     payments = [] \<rparr>"

text \<open>The same two orders, the second one dated in March: February has no revenue row.\<close>

definition gap_db :: database where
  "gap_db = two_month_db \<lparr> orders :=
     [\<lparr>o_order_id = 1, o_customer_id = 1,
        o_order_date = \<lparr>d_year = 2006, d_month = 1, d_day = 10\<rparr>, o_status = ''delivered''\<rparr>,
      \<lparr>o_order_id = 2, o_customer_id = 1,
        o_order_date = \<lparr>d_year = 2006, d_month = 3, d_day = 10\<rparr>, o_status = ''delivered''\<rparr>] \<rparr>"

text \<open>
  The forecast in the words of the specification: the revenue of the last month plus
  \<open>k\<close> times the mean of the differences between consecutive months.
\<close>

definition month_over_month_deltas :: "rat list \<Rightarrow> rat list" where
  "month_over_month_deltas revenues = map (\<lambda>(previous, current). current - previous) (zip revenues (tl revenues))"

definition linear_forecast_spec :: "rat list \<Rightarrow> nat \<Rightarrow> rat" where
  "linear_forecast_spec revenues k =
     last revenues + of_nat k * avg (month_over_month_deltas revenues)"

text \<open>Two rows of the monthly revenue for successive months of one year.\<close>

definition next_month :: "month_row \<Rightarrow> month_row \<Rightarrow> bool" where
  "next_month a b \<longleftrightarrow> m_year b = m_year a \<and> m_month_num b = m_month_num a + 1"

section \<open>ingest_to_sqlite.py\<close>

text \<open>
  A CSV file is the list of its data rows as \<^verbatim>\<open>csv.DictReader\<close> yields them: a
  dictionary from the column names of the header to the cells, which are strings. The
  files are taken to have the header the script indexes by and complete rows.
\<close>

record customers_row =
  cc_customer_id :: string
  cc_customer_name :: string
  cc_email :: string
  cc_phone_number :: string
  cc_city :: string
  cc_country :: string

record products_row =
  pc_product_id :: string
  pc_product_name :: string
  pc_category :: string
  pc_price :: string

record orders_row =
  oc_order_id :: string
  oc_customer_id :: string
  oc_order_date :: string
  oc_status :: string

record order_items_row =
  ic_item_id :: string
  ic_order_id :: string
  ic_product_id :: string
  ic_quantity :: string
  ic_price :: string

record payments_row =
  yc_payment_id :: string
  yc_amount :: string
  yc_order_id :: string
  yc_payment_method :: string
  yc_payment_date :: string

record csv_files =
  customers_csv :: "customers_row list"
  products_csv :: "products_row list"
  orders_csv :: "orders_row list"
  order_items_csv :: "order_items_row list"
  payments_csv :: "payments_row list"

text \<open>
  \<^verbatim>\<open>int\<close> and \<^verbatim>\<open>float\<close> are built-ins of Python, not code of this repository: the
  script is modelled for any pair of conversions, each of which returns a value or
  raises.
\<close>

record conversions =
  py_int :: "string \<Rightarrow> py_error + int"
  py_float :: "string \<Rightarrow> py_error + rat"

text \<open>Sequencing: an exception skips the rest.\<close>

definition bind_err :: "py_error + 'a \<Rightarrow> ('a \<Rightarrow> py_error + 'b) \<Rightarrow> py_error + 'b" where
  "bind_err r f = (case r of Inl e \<Rightarrow> Inl e | Inr x \<Rightarrow> f x)"

subsection \<open>\<^verbatim>\<open>datetime.strptime\<close> for the two formats of the script\<close>

text \<open>
  \<^verbatim>\<open>strptime\<close> compiles the format into a regular expression, takes the first match
  at the start of the string, and raises ValueError when there is none, when text is
  left over after the match, or when the three numbers are no date. A matcher returns
  the ways of matching a prefix, in the order in which the regular expression tries
  them, each with the rest of the string. Digits are the ASCII digits.
\<close>

definition is_digit :: "char \<Rightarrow> bool" where
  "is_digit c \<longleftrightarrow> (48 :: nat) \<le> of_char c \<and> (of_char c :: nat) \<le> 57"

definition digit_value :: "char \<Rightarrow> nat" where
  "digit_value c = of_char c - 48"

definition lit :: "char \<Rightarrow> string \<Rightarrow> string list" where
  "lit c s = (case s of [] \<Rightarrow> [] | x # r \<Rightarrow> if x = c then [r] else [])"

text \<open>One digit, or two digits, whose value lies in a range.\<close>

definition one_digit :: "nat \<Rightarrow> nat \<Rightarrow> string \<Rightarrow> (nat \<times> string) list" where
  "one_digit lo hi s =
     (case s of
        a # r \<Rightarrow> if is_digit a \<and> lo \<le> digit_value a \<and> digit_value a \<le> hi
                 then [(digit_value a, r)] else []
      | [] \<Rightarrow> [])"

definition two_digits :: "nat \<Rightarrow> nat \<Rightarrow> string \<Rightarrow> (nat \<times> string) list" where
  "two_digits lo hi s =
     (case s of
        a # b # r \<Rightarrow>
          if is_digit a \<and> is_digit b \<and> lo \<le> 10 * digit_value a + digit_value b
             \<and> 10 * digit_value a + digit_value b \<le> hi
          then [(10 * digit_value a + digit_value b, r)] else []
      | _ \<Rightarrow> [])"

text \<open>\<^verbatim>\<open>%m\<close> is \<^verbatim>\<open>1[0-2]|0[1-9]|[1-9]\<close>.\<close>

definition re_month :: "string \<Rightarrow> (nat \<times> string) list" where
  "re_month s = two_digits 10 12 s @ two_digits 1 9 s @ one_digit 1 9 s"

text \<open>\<^verbatim>\<open>%d\<close> is \<^verbatim>\<open>3[0-1]|[1-2]\d|0[1-9]|[1-9]| [1-9]\<close>.\<close>

definition re_day :: "string \<Rightarrow> (nat \<times> string) list" where
  "re_day s = two_digits 30 31 s @ two_digits 10 29 s @ two_digits 1 9 s @ one_digit 1 9 s
              @ concat (map (one_digit 1 9) (lit CHR '' '' s))"

text \<open>\<^verbatim>\<open>%Y\<close> is \<^verbatim>\<open>\d\d\d\d\<close>.\<close>

definition re_year :: "string \<Rightarrow> (nat \<times> string) list" where
  "re_year s =
     (case s of
        a # b # c # d # r \<Rightarrow>
          if is_digit a \<and> is_digit b \<and> is_digit c \<and> is_digit d
          then [(1000 * digit_value a + 100 * digit_value b + 10 * digit_value c + digit_value d, r)]
          else []
      | _ \<Rightarrow> [])"

datatype date_format = MDY | YMD

text \<open>\<open>MDY\<close> is \<^verbatim>\<open>'%m/%d/%Y'\<close> and \<open>YMD\<close> is \<^verbatim>\<open>'%Y-%m-%d'\<close>.\<close>

definition regex_matches :: "date_format \<Rightarrow> string \<Rightarrow> ((nat \<times> nat \<times> nat) \<times> string) list" where
  "regex_matches fmt s =
     (case fmt of
        MDY \<Rightarrow> [((y, m, d), r5).
                 (m, r1) \<leftarrow> re_month s, r2 \<leftarrow> lit CHR ''/'' r1,
                 (d, r3) \<leftarrow> re_day r2, r4 \<leftarrow> lit CHR ''/'' r3,
                 (y, r5) \<leftarrow> re_year r4]
      | YMD \<Rightarrow> [((y, m, d), r5).
                 (y, r1) \<leftarrow> re_year s, r2 \<leftarrow> lit CHR ''-'' r1,
                 (m, r3) \<leftarrow> re_month r2, r4 \<leftarrow> lit CHR ''-'' r3,
                 (d, r5) \<leftarrow> re_day r4])"

definition is_leap :: "nat \<Rightarrow> bool" where
  "is_leap y \<longleftrightarrow> y mod 4 = 0 \<and> (y mod 100 \<noteq> 0 \<or> y mod 400 = 0)"

definition days_in_month :: "nat \<Rightarrow> nat \<Rightarrow> nat" where
  "days_in_month y m =
     (if m = 2 then (if is_leap y then 29 else 28)
      else if m \<in> {4, 6, 9, 11} then 30 else 31)"

text \<open>What the constructor of \<^verbatim>\<open>datetime\<close> accepts.\<close>

definition valid_date :: "nat \<Rightarrow> nat \<Rightarrow> nat \<Rightarrow> bool" where
  "valid_date y m d \<longleftrightarrow> 1 \<le> y \<and> y \<le> 9999 \<and> 1 \<le> m \<and> m \<le> 12 \<and> 1 \<le> d \<and> d \<le> days_in_month y m"

definition strptime :: "date_format \<Rightarrow> string \<Rightarrow> py_error + date" where
  "strptime fmt s =
     (case regex_matches fmt s of
        [] \<Rightarrow> Inl ValueError
      | ((y, m, d), rest) # _ \<Rightarrow>
          if rest \<noteq> [] then Inl ValueError
          else if valid_date y m d then Inr \<lparr>d_year = y, d_month = m, d_day = d\<rparr>
          else Inl ValueError)"

text \<open>
  The \<^verbatim>\<open>try\<close> / \<^verbatim>\<open>except ValueError\<close> around the first format, used for
  \<open>order_date\<close> and for \<open>payment_date\<close>. The date is stored as its
  \<^verbatim>\<open>isoformat()\<close>.
\<close>

definition parse_date :: "string \<Rightarrow> py_error + date" where
  "parse_date s =
     (case strptime MDY s of
        Inr d \<Rightarrow> Inr d
      | Inl ValueError \<Rightarrow> strptime YMD s
      | Inl e \<Rightarrow> Inl e)"

subsection \<open>The five imports\<close>

text \<open>The loop that converts the rows of one file; the first exception ends it.\<close>

fun traverse :: "('a \<Rightarrow> py_error + 'b) \<Rightarrow> 'a list \<Rightarrow> py_error + 'b list" where
  "traverse f [] = Inr []"
| "traverse f (x # xs) = bind_err (f x) (\<lambda>y. bind_err (traverse f xs) (\<lambda>ys. Inr (y # ys)))"

text \<open>
  The tuple built from one row. Python evaluates its components from left to right; for
  orders and payments the date is parsed before the tuple is built.
\<close>

definition customer_of_row :: "conversions \<Rightarrow> customers_row \<Rightarrow> py_error + customer" where
  "customer_of_row cv row =
     bind_err (py_int cv (cc_customer_id row)) (\<lambda>customer_id.
     Inr \<lparr> c_customer_id = customer_id, c_customer_name = cc_customer_name row,
           c_email = cc_email row, c_phone_number = cc_phone_number row,
           c_city = cc_city row, c_country = cc_country row \<rparr>)"

definition product_of_row :: "conversions \<Rightarrow> products_row \<Rightarrow> py_error + product" where
  "product_of_row cv row =
     bind_err (py_int cv (pc_product_id row)) (\<lambda>product_id.
     bind_err (py_float cv (pc_price row)) (\<lambda>price.
     Inr \<lparr> pr_product_id = product_id, pr_product_name = pc_product_name row,
           pr_category = pc_category row, pr_price = price \<rparr>))"

definition order_of_row :: "conversions \<Rightarrow> orders_row \<Rightarrow> py_error + order" where
  "order_of_row cv row =
     bind_err (parse_date (oc_order_date row)) (\<lambda>order_date.
     bind_err (py_int cv (oc_order_id row)) (\<lambda>order_id.
     bind_err (py_int cv (oc_customer_id row)) (\<lambda>customer_id.
     Inr \<lparr> o_order_id = order_id, o_customer_id = customer_id,
           o_order_date = order_date, o_status = oc_status row \<rparr>)))"

definition order_item_of_row :: "conversions \<Rightarrow> order_items_row \<Rightarrow> py_error + order_item" where
  "order_item_of_row cv row =
     bind_err (py_int cv (ic_item_id row)) (\<lambda>item_id.
     bind_err (py_int cv (ic_order_id row)) (\<lambda>order_id.
     bind_err (py_int cv (ic_product_id row)) (\<lambda>product_id.
     bind_err (py_int cv (ic_quantity row)) (\<lambda>quantity.
     bind_err (py_float cv (ic_price row)) (\<lambda>price.
     Inr \<lparr> oi_item_id = item_id, oi_order_id = order_id, oi_product_id = product_id,
           oi_quantity = quantity, oi_price = price \<rparr>)))))"

definition payment_of_row :: "conversions \<Rightarrow> payments_row \<Rightarrow> py_error + payment" where
  "payment_of_row cv row =
     bind_err (parse_date (yc_payment_date row)) (\<lambda>payment_date.
     bind_err (py_int cv (yc_payment_id row)) (\<lambda>payment_id.
     bind_err (py_float cv (yc_amount row)) (\<lambda>amount.
     bind_err (py_int cv (yc_order_id row)) (\<lambda>order_id.
     Inr \<lparr> p_payment_id = payment_id, p_amount = amount, p_order_id = order_id,
           p_payment_method = yc_payment_method row, p_payment_date = payment_date \<rparr>))))"

text \<open>
  \<^verbatim>\<open>INSERT OR REPLACE\<close> of one row into a table kept in key order: a row with the same
  primary key is replaced, otherwise the row is inserted at its place.
\<close>

fun insert_or_replace :: "('r \<Rightarrow> int) \<Rightarrow> 'r \<Rightarrow> 'r list \<Rightarrow> 'r list" where
  "insert_or_replace key r [] = [r]"
| "insert_or_replace key r (x # xs) =
     (if key r < key x then r # x # xs
      else if key r = key x then r # xs
      else x # insert_or_replace key r xs)"

text \<open>
  An INTEGER of SQLite has 64 bits; binding a larger Python integer raises OverflowError.
\<close>

definition sqlite_integer :: "int \<Rightarrow> bool" where
  "sqlite_integer n \<longleftrightarrow> - (2 ^ 63) \<le> n \<and> n < 2 ^ 63"

text \<open>
  \<^verbatim>\<open>cursor.executemany\<close> with \<^verbatim>\<open>INSERT OR REPLACE\<close>: the rows are upserted in the
  order of the file. \<open>ints\<close> gives the integers bound for a row.
\<close>

definition executemany ::
    "('r \<Rightarrow> int) \<Rightarrow> ('r \<Rightarrow> int list) \<Rightarrow> 'r list \<Rightarrow> 'r list \<Rightarrow> py_error + 'r list" where
  "executemany key ints data table =
     (if list_all (\<lambda>r. list_all sqlite_integer (ints r)) data
      then Inr (foldl (\<lambda>t r. insert_or_replace key r t) table data)
      else Inl OverflowError)"

text \<open>One \<^verbatim>\<open>with open(...)\<close> block: convert every row, then \<^verbatim>\<open>executemany\<close>.\<close>

definition import_table ::
    "('a \<Rightarrow> py_error + 'r) \<Rightarrow> ('r \<Rightarrow> int) \<Rightarrow> ('r \<Rightarrow> int list) \<Rightarrow> 'a list \<Rightarrow> 'r list
     \<Rightarrow> py_error + 'r list" where
  "import_table convert key ints rows table =
     bind_err (traverse convert rows) (\<lambda>data. executemany key ints data table)"

text \<open>
  The script: the five imports in the order of the source, then \<^verbatim>\<open>conn.commit()\<close>.
  The tables exist before the imports (\<^verbatim>\<open>CREATE TABLE IF NOT EXISTS\<close>); a table that was
  not there is an empty one. Foreign keys are not enforced (the script does not switch
  them on).
\<close>

definition ingest_to_sqlite :: "conversions \<Rightarrow> csv_files \<Rightarrow> database \<Rightarrow> py_error + database" where
  "ingest_to_sqlite cv files db =
     bind_err (import_table (customer_of_row cv) c_customer_id (\<lambda>r. [c_customer_id r])
                 (customers_csv files) (customers db)) (\<lambda>customers'.
     bind_err (import_table (product_of_row cv) pr_product_id (\<lambda>r. [pr_product_id r])
                 (products_csv files) (products db)) (\<lambda>products'.
     bind_err (import_table (order_of_row cv) o_order_id (\<lambda>r. [o_order_id r, o_customer_id r])
                 (orders_csv files) (orders db)) (\<lambda>orders'.
     bind_err (import_table (order_item_of_row cv) oi_item_id
                 (\<lambda>r. [oi_item_id r, oi_order_id r, oi_product_id r, oi_quantity r])
                 (order_items_csv files) (order_items db)) (\<lambda>order_items'.
     bind_err (import_table (payment_of_row cv) p_payment_id (\<lambda>r. [p_payment_id r, p_order_id r])
                 (payments_csv files) (payments db)) (\<lambda>payments'.
     Inr \<lparr> customers = customers', products = products', orders = orders',
           order_items = order_items', payments = payments' \<rparr>)))))"

text \<open>
  The database file after a run. The inserts of a run are one transaction, committed by
  the last statement of the import: a run that ends in an exception leaves the rows as
  they were.
\<close>

definition database_after :: "conversions \<Rightarrow> csv_files \<Rightarrow> database \<Rightarrow> database" where
  "database_after cv files db =
     (case ingest_to_sqlite cv files db of Inl e \<Rightarrow> db | Inr db' \<Rightarrow> db')"

subsection \<open>Example input\<close>

text \<open>
  Conversions that agree with \<^verbatim>\<open>int\<close> and \<^verbatim>\<open>float\<close> on plain decimal numerals such as
  \<^verbatim>\<open>12\<close>, \<^verbatim>\<open>-3\<close> and \<^verbatim>\<open>10.50\<close>, and raise ValueError on everything else.
\<close>

definition digits_value :: "string \<Rightarrow> nat" where
  "digits_value s = foldl (\<lambda>n c. 10 * n + digit_value c) 0 s"

definition read_int :: "string \<Rightarrow> py_error + int" where
  "read_int s =
     (case s of
        CHR ''-'' # r \<Rightarrow>
          if r \<noteq> [] \<and> list_all is_digit r then Inr (- int (digits_value r)) else Inl ValueError
      | _ \<Rightarrow> if s \<noteq> [] \<and> list_all is_digit s then Inr (int (digits_value s)) else Inl ValueError)"

definition read_decimal :: "string \<Rightarrow> py_error + rat" where
  "read_decimal s =
     (let whole = takeWhile (\<lambda>c. c \<noteq> CHR ''.'') s;
          fraction = drop 1 (dropWhile (\<lambda>c. c \<noteq> CHR ''.'') s)
      in if whole \<noteq> [] \<and> list_all is_digit whole \<and> list_all is_digit fraction
         then Inr (of_nat (digits_value whole) + of_nat (digits_value fraction) / 10 ^ length fraction)
         else Inl ValueError)"

definition plain_conversions :: conversions where
  "plain_conversions = \<lparr> py_int = read_int, py_float = read_decimal \<rparr>"

text \<open>
  Two orders, the first dated in the first format, the second in the second; the customer
  and the first order come twice, the later row with other values.
\<close>

definition sample_files :: csv_files where
  "sample_files = \<lparr>
     customers_csv =
       [\<lparr>cc_customer_id = ''1'', cc_customer_name = ''Ann Lee'', cc_email = ''ann@example.org'',
          cc_phone_number = ''555-0100'', cc_city = ''Pune'', cc_country = ''India''\<rparr>,
        \<lparr>cc_customer_id = ''1'', cc_customer_name = ''Ann Lee'', cc_email = ''lee@example.org'',
          cc_phone_number = ''555-0100'', cc_city = ''Pune'', cc_country = ''India''\<rparr>],
     products_csv =
       [\<lparr>pc_product_id = ''7'', pc_product_name = ''Lamp'', pc_category = ''Home & Kitchen'',
          pc_price = ''10.50''\<rparr>],
     orders_csv =
       [\<lparr>oc_order_id = ''2'', oc_customer_id = ''1'', oc_order_date = ''2006-02-10'',
          oc_status = ''pending''\<rparr>,
        \<lparr>oc_order_id = ''1'', oc_customer_id = ''1'', oc_order_date = ''01/05/2006'',
          oc_status = ''pending''\<rparr>,
        \<lparr>oc_order_id = ''1'', oc_customer_id = ''1'', oc_order_date = ''01/05/2006'',
          oc_status = ''shipped''\<rparr>],
     order_items_csv =
       [\<lparr>ic_item_id = ''1'', ic_order_id = ''1'', ic_product_id = ''7'', ic_quantity = ''2'',
          ic_price = ''10.50''\<rparr>],
     payments_csv =
       [\<lparr>yc_payment_id = ''1'', yc_amount = ''21.00'', yc_order_id = ''1'',
          yc_payment_method = ''UPI'', yc_payment_date = ''01/06/2006''\<rparr>] \<rparr>"


definition empty_db :: database where
  "empty_db = \<lparr> customers = [], products = [], orders = [], order_items = [], payments = [] \<rparr>"

section \<open>Properties of the reconciliation queries\<close>


lemma set_left_join:
  "set (left_join c bs) = (if filter c bs = [] then {None} else Some ` set (filter c bs))"
  by (cases "filter c bs") (simp_all add: left_join_def)

lemma left_join_not_Nil: "left_join c bs \<noteq> []"
  by (simp add: left_join_def split: list.splits)

lemma in_recon_join:
  "(od, oi, p) \<in> set (recon_join db) \<longleftrightarrow>
     od \<in> set (orders db) \<and>
     oi \<in> set (left_join (\<lambda>oi. o_order_id od = oi_order_id oi) (order_items db)) \<and>
     p \<in> set (left_join (\<lambda>p. o_order_id od = p_order_id p) (payments db))"
  by (auto simp: recon_join_def)

lemma set_status_check_query:
  "set (status_check_query db) =
     (\<lambda>k. recon_select k (filter (\<lambda>j. recon_key j = k) (recon_join db))) ` recon_key ` set (recon_join db)"
  by (simp add: status_check_query_def Let_def)

lemma recon_select_fields:
  "r_order_id (recon_select (a, b, c, d) g) = a"
  "payment_amount (recon_select (a, b, c, d) g) = d"
  "order_total (recon_select (a, b, c, d) g) = coalesce (sql_sum (map (\<lambda>(od, oi, p). map_option line_total oi) g)) 0"
  "difference (recon_select (a, b, c, d) g) = map_option (\<lambda>x. \<bar>order_total (recon_select (a, b, c, d) g) - x\<bar>) d"
  "status_check (recon_select (a, b, c, d) g) = 
     (case difference (recon_select (a, b, c, d) g) of Some x \<Rightarrow> if x < 1 / 100 then ''MATCH'' else ''MISMATCH''
                           | None \<Rightarrow> ''MISMATCH'')"
  by (simp_all add: recon_select_def Let_def)

lemma rowid_table_distinct: "rowid_table key rows \<Longrightarrow> distinct (map key rows)"
  by (simp add: rowid_table_def strict_sorted_iff)

lemma concat_map_only:
  "distinct (map key xs) \<Longrightarrow> x \<in> set xs \<Longrightarrow>
   (\<And>y. y \<in> set xs \<Longrightarrow> key y \<noteq> key x \<Longrightarrow> h y = []) \<Longrightarrow>
   concat (map h xs) = h x"
proof (induction xs)
  case Nil
  then show ?case by simp
next
  case (Cons a xs)
  show ?case
  proof (cases "a = x")
    case True
    have "h y = []" if "y \<in> set xs" for y
    proof -
      from Cons.prems(1) True have "key x \<notin> key ` set xs" by simp
      with that have "key y \<noteq> key x" by (metis imageI)
      with that Cons.prems(3) show ?thesis by simp
    qed
    then have "concat (map h xs) = []" by simp
    with True show ?thesis by simp
  next
    case False
    with Cons.prems have x_in: "x \<in> set xs" by simp
    with Cons.prems(1) have "key a \<noteq> key x" by (metis distinct.simps(2) imageI list.simps(9) list.set_map)
    with Cons.prems(3) have "h a = []" by simp
    moreover have "concat (map h xs) = h x"
      using Cons.IH Cons.prems x_in by simp
    ultimately show ?thesis by simp
  qed
qed

lemma filter_distinct_map_single:
  "distinct (map f xs) \<Longrightarrow> x \<in> set xs \<Longrightarrow> filter (\<lambda>y. f y = f x) xs = [x]"
proof (induction xs)
  case Nil
  then show ?case by simp
next
  case (Cons a xs)
  show ?case
  proof (cases "a = x")
    case True
    from Cons.prems(1) True have "f x \<notin> f ` set xs" by simp
    then have "\<forall>y\<in>set xs. f y \<noteq> f x" by (metis imageI)
    then have "filter (\<lambda>y. f y = f x) xs = []" by (simp add: filter_empty_conv)
    with True show ?thesis by simp
  next
    case False
    with Cons.prems have x_in: "x \<in> set xs" by simp
    with Cons.prems(1) have "f a \<noteq> f x" by (metis distinct.simps(2) imageI list.simps(9) list.set_map)
    with Cons.IH Cons.prems(1) x_in show ?thesis by simp
  qed
qed

lemma sql_sum_left_join:
  "coalesce (sql_sum (map (map_option f) (left_join c bs))) 0 = sum_list (map f (filter c bs))"
proof (cases "filter c bs")
  case Nil
  then show ?thesis by (simp add: left_join_def sql_sum_def coalesce_def)
next
  case (Cons b ms)
  have "List.map_filter id (map (map_option f) (map Some xs)) = map f xs" for xs
    by (induction xs) (simp_all add:)
  with Cons show ?thesis
    by (simp add: left_join_def sql_sum_def coalesce_def split: list.splits)
qed

lemma recon_join_concat:
  "recon_join db = concat (map (\<lambda>od.
      [(od, oi, p).
        oi \<leftarrow> left_join (\<lambda>oi. o_order_id od = oi_order_id oi) (order_items db),
        p \<leftarrow> left_join (\<lambda>p. o_order_id od = p_order_id p) (payments db)]) (orders db))"
  by (simp add: recon_join_def)

lemma recon_group:
  assumes "distinct (map o_order_id (orders db))" and "od \<in> set (orders db)"
  shows "filter (\<lambda>j. recon_key j = (o_order_id od, o_order_date od, o_status od, amt)) (recon_join db) =
     [(od, oi, p).
        oi \<leftarrow> left_join (\<lambda>oi. o_order_id od = oi_order_id oi) (order_items db),
        p \<leftarrow> filter (\<lambda>p. map_option p_amount p = amt)
              (left_join (\<lambda>p. o_order_id od = p_order_id p) (payments db))]"
proof -
  let ?P = "\<lambda>j. recon_key j = (o_order_id od, o_order_date od, o_status od, amt)"
  let ?h = "\<lambda>od. filter ?P [(od, oi, p).
        oi \<leftarrow> left_join (\<lambda>oi. o_order_id od = oi_order_id oi) (order_items db),
        p \<leftarrow> left_join (\<lambda>p. o_order_id od = p_order_id p) (payments db)]"
  have "filter ?P (recon_join db) = concat (map ?h (orders db))"
    by (simp add: recon_join_concat filter_concat comp_def)
  also have "\<dots> = ?h od"
  proof (rule concat_map_only [where key = o_order_id])
    show "distinct (map o_order_id (orders db))" by (rule assms(1))
    show "od \<in> set (orders db)" by (rule assms(2))
    show "?h y = []" if "y \<in> set (orders db)" "o_order_id y \<noteq> o_order_id od" for y
      using that(2) by (simp add: filter_empty_conv recon_key_def)
  qed
  also have "\<dots> = [(od, oi, p).
        oi \<leftarrow> left_join (\<lambda>oi. o_order_id od = oi_order_id oi) (order_items db),
        p \<leftarrow> filter (\<lambda>p. map_option p_amount p = amt)
              (left_join (\<lambda>p. o_order_id od = p_order_id p) (payments db))]"
    by (simp add: filter_concat comp_def recon_key_def filter_map)
  finally show ?thesis .
qed

lemma status_check_values:
  "row \<in> set (status_check_query db) \<Longrightarrow> status_check row = ''MATCH'' \<or> status_check row = ''MISMATCH''"
  by (auto simp: set_status_check_query recon_select_def Let_def split: option.splits)

lemma mismatching_count:
  "mismatching (status_check_query db) =
     length (filter (\<lambda>row. status_check row = ''MISMATCH'') (status_check_query db))"
proof -
  let ?rs = "status_check_query db"
  have "filter (\<lambda>row. status_check row = ''MISMATCH'') ?rs = filter (\<lambda>row. \<not> status_check row = ''MATCH'') ?rs"
    by (rule filter_cong) (use status_check_values in auto)
  moreover have "length ?rs = length (filter (\<lambda>row. status_check row = ''MATCH'') ?rs)
      + length (filter (\<lambda>row. \<not> status_check row = ''MATCH'') ?rs)"
    by (simp add: sum_length_filter_compl)
  ultimately show ?thesis by (simp add: mismatching_def matching_def total_orders_def)
qed

text \<open>
  Claim C10. An order without any payment row has a row in the result of the
  reconciliation query; every row of that order has a NULL payment amount and a NULL
  difference and is classified MISMATCH by the ELSE branch of the CASE; the script's
  \<open>mismatching\<close> figure is the number of MISMATCH rows, so it counts that order.
\<close>

theorem unpaid_order_is_mismatch:
  assumes "od \<in> set (orders db)"
    and "\<forall>p\<in>set (payments db). p_order_id p \<noteq> o_order_id od"
  shows "(\<exists>row\<in>set (status_check_query db). r_order_id row = o_order_id od) \<and>
         (\<forall>row\<in>set (status_check_query db). r_order_id row = o_order_id od \<longrightarrow>
            payment_amount row = None \<and> difference row = None \<and> status_check row = ''MISMATCH'') \<and>
         mismatching (status_check_query db) =
           length (filter (\<lambda>row. status_check row = ''MISMATCH'') (status_check_query db)) \<and>
         0 < mismatching (status_check_query db)"
proof -
  let ?rs = "status_check_query db"
  have none: "left_join (\<lambda>p. o_order_id od' = p_order_id p) (payments db) = [None]"
    if "o_order_id od' = o_order_id od" for od' :: order
  proof -
    have "filter (\<lambda>p. o_order_id od' = p_order_id p) (payments db) = []"
      using assms(2) that by (auto simp: filter_empty_conv)
    then show ?thesis by (simp add: left_join_def)
  qed
  obtain oi where oi: "oi \<in> set (left_join (\<lambda>oi. o_order_id od = oi_order_id oi) (order_items db))"
    using left_join_not_Nil [of "\<lambda>oi. o_order_id od = oi_order_id oi" "order_items db"]
    by (cases "left_join (\<lambda>oi. o_order_id od = oi_order_id oi) (order_items db)") auto
  with assms(1) none have "(od, oi, None) \<in> set (recon_join db)"
    by (simp add: in_recon_join)
  then have ex: "\<exists>row\<in>set ?rs. r_order_id row = o_order_id od"
    by (force simp: set_status_check_query recon_key_def recon_select_fields)
  have all: "payment_amount row = None \<and> difference row = None \<and> status_check row = ''MISMATCH''"
    if "row \<in> set ?rs" "r_order_id row = o_order_id od" for row
  proof -
    from that(1) obtain od' oi' p' where j: "(od', oi', p') \<in> set (recon_join db)"
      and row: "row = recon_select (recon_key (od', oi', p'))
                  (filter (\<lambda>j. recon_key j = recon_key (od', oi', p')) (recon_join db))"
      by (auto simp: set_status_check_query)
    from row that(2) have "o_order_id od' = o_order_id od"
      by (simp add: recon_key_def recon_select_fields)
    with j none have "p' = None" by (simp add: in_recon_join)
    with row show ?thesis by (simp add: recon_key_def recon_select_fields)
  qed
  from ex all have "\<exists>row\<in>set ?rs. status_check row = ''MISMATCH''" by blast
  then have "filter (\<lambda>row. status_check row = ''MISMATCH'') ?rs \<noteq> []"
    by (simp add: filter_empty_conv)
  then have "0 < mismatching ?rs" by (simp add: mismatching_count)
  with ex all mismatching_count show ?thesis by blast
qed

theorem unpaid_order_is_mismatch_witness:
  "orders sample_db ! 2 \<in> set (orders sample_db) \<and>
   filter (\<lambda>p. p_order_id p = o_order_id (orders sample_db ! 2)) (payments sample_db) = [] \<and>
   0 < mismatching (status_check_query sample_db)"
proof -
  have h1: "orders sample_db ! 2 \<in> set (orders sample_db)"
    by (simp add: sample_db_def)
  have h2: "\<forall>p\<in>set (payments sample_db). p_order_id p \<noteq> o_order_id (orders sample_db ! 2)"
    by (simp add: sample_db_def)
  have h3: "filter (\<lambda>p. p_order_id p = o_order_id (orders sample_db ! 2)) (payments sample_db) = []"
    by (simp add: sample_db_def)
  show ?thesis
    using h1 h3 unpaid_order_is_mismatch [OF h1 h2] by blast
qed

lemma distinct_left_join_amounts:
  assumes "distinct (map f (filter c bs))"
  shows "distinct (map (map_option f) (left_join c bs))"
proof (cases "filter c bs")
  case Nil
  then show ?thesis by (simp add: left_join_def)
next
  case (Cons b ms)
  then have "left_join c bs = map Some (filter c bs)"
    by (simp add: left_join_def)
  moreover have "distinct (map (map_option f) (map Some xs)) = distinct (map f xs)" for xs
    by (induction xs) auto
  ultimately show ?thesis using assms by simp
qed

lemma recon_row_of_order:
  assumes wf: "wf_database db" and od: "od \<in> set (orders db)"
    and dist: "distinct (map p_amount (filter (\<lambda>p. o_order_id od = p_order_id p) (payments db)))"
    and row: "row \<in> set (status_check_query db)" and rid: "r_order_id row = o_order_id od"
  shows "\<exists>p\<in>set (left_join (\<lambda>p. o_order_id od = p_order_id p) (payments db)).
           row = recon_select (o_order_id od, o_order_date od, o_status od, map_option p_amount p)
                   [(od, oi, p). oi \<leftarrow> left_join (\<lambda>oi. o_order_id od = oi_order_id oi) (order_items db)]"
proof -
  from wf have d: "distinct (map o_order_id (orders db))"
    by (simp add: wf_database_def rowid_table_distinct)
  from row obtain od' oi' p' where j: "(od', oi', p') \<in> set (recon_join db)"
    and r: "row = recon_select (recon_key (od', oi', p'))
                (filter (\<lambda>j. recon_key j = recon_key (od', oi', p')) (recon_join db))"
    by (auto simp: set_status_check_query)
  from r rid have "o_order_id od' = o_order_id od"
    by (simp add: recon_key_def recon_select_fields)
  moreover from j have "od' \<in> set (orders db)" by (simp add: in_recon_join)
  ultimately have eq: "od' = od"
    using d od by (auto simp: distinct_map inj_on_def)
  with j have p': "p' \<in> set (left_join (\<lambda>p. o_order_id od = p_order_id p) (payments db))"
    by (simp add: in_recon_join)
  let ?ps = "left_join (\<lambda>p. o_order_id od = p_order_id p) (payments db)"
  have single: "filter (\<lambda>p. map_option p_amount p = map_option p_amount p') ?ps = [p']"
    using distinct_left_join_amounts [OF dist] p' by (rule filter_distinct_map_single)
  have "filter (\<lambda>j. recon_key j = recon_key (od', oi', p')) (recon_join db) =
        [(od, oi, p). oi \<leftarrow> left_join (\<lambda>oi. o_order_id od = oi_order_id oi) (order_items db), p \<leftarrow> [p']]"
    using recon_group [OF d od, of "map_option p_amount p'"] single eq
    by (simp add: recon_key_def)
  with r eq p' show ?thesis by (auto simp: recon_key_def)
qed

lemma recon_row_exists:
  assumes "od \<in> set (orders db)"
    and "p \<in> set (left_join (\<lambda>p. o_order_id od = p_order_id p) (payments db))"
  shows "\<exists>row\<in>set (status_check_query db).
           r_order_id row = o_order_id od \<and> payment_amount row = map_option p_amount p"
proof -
  obtain oi where "oi \<in> set (left_join (\<lambda>oi. o_order_id od = oi_order_id oi) (order_items db))"
    using left_join_not_Nil [of "\<lambda>oi. o_order_id od = oi_order_id oi" "order_items db"]
    by (cases "left_join (\<lambda>oi. o_order_id od = oi_order_id oi) (order_items db)") auto
  with assms have "(od, oi, p) \<in> set (recon_join db)"
    by (simp add: in_recon_join)
  then show ?thesis
    by (force simp: set_status_check_query recon_key_def recon_select_fields)
qed

lemma recon_select_total:
  "order_total (recon_select k
      [(od, oi, p). oi \<leftarrow> left_join (\<lambda>oi. o_order_id od = oi_order_id oi) (order_items db)]) =
   sum_list (map line_total (filter (\<lambda>oi. o_order_id od = oi_order_id oi) (order_items db)))"
proof -
  have "map (\<lambda>(od, oi, p). map_option line_total oi)
          [(od, oi, p). oi \<leftarrow> left_join (\<lambda>oi. o_order_id od = oi_order_id oi) (order_items db)] =
        map (map_option line_total) (left_join (\<lambda>oi. o_order_id od = oi_order_id oi) (order_items db))"
    by (simp add: comp_def)
  then show ?thesis
    by (cases k) (simp add: recon_select_fields sql_sum_left_join del: map_map)
qed

lemma recon_select_status:
  "status_check (recon_select k g) =
     (if \<exists>a. payment_amount (recon_select k g) = Some a \<and>
             \<bar>order_total (recon_select k g) - a\<bar> < 1 / 100
      then ''MATCH'' else ''MISMATCH'')"
  by (cases k) (auto simp: recon_select_def Let_def split: option.splits)

lemma no_payment_query_ids:
  "set (map fst (no_payment_query db)) =
     {o_order_id od | od. od \<in> set (orders db) \<and> (\<forall>p\<in>set (payments db). p_order_id p \<noteq> o_order_id od)}"
proof -
  have none: "None \<in> set (left_join (\<lambda>p. o_order_id od = p_order_id p) (payments db)) \<longleftrightarrow>
        (\<forall>p\<in>set (payments db). p_order_id p \<noteq> o_order_id od)" for od :: order
    by (auto simp: set_left_join filter_empty_conv)
  have "set (map fst (no_payment_query db)) =
        (\<lambda>(od, oi, p). o_order_id od) ` {j \<in> set (recon_join db). case j of (od, oi, p) \<Rightarrow> p = None}"
    by (simp add: no_payment_query_def Let_def comp_def case_prod_beta)
  also have "\<dots> = {o_order_id od | od. od \<in> set (orders db) \<and>
        None \<in> set (left_join (\<lambda>p. o_order_id od = p_order_id p) (payments db))}"
  proof (intro set_eqI iffI)
    fix x assume "x \<in> (\<lambda>(od, oi, p). o_order_id od) ` {j \<in> set (recon_join db). case j of (od, oi, p) \<Rightarrow> p = None}"
    then show "x \<in> {o_order_id od | od. od \<in> set (orders db) \<and>
        None \<in> set (left_join (\<lambda>p. o_order_id od = p_order_id p) (payments db))}"
      by (auto simp: in_recon_join)
  next
    fix x assume "x \<in> {o_order_id od | od. od \<in> set (orders db) \<and>
        None \<in> set (left_join (\<lambda>p. o_order_id od = p_order_id p) (payments db))}"
    then obtain od where od: "od \<in> set (orders db)" "x = o_order_id od"
      "None \<in> set (left_join (\<lambda>p. o_order_id od = p_order_id p) (payments db))" by auto
    obtain oi where "oi \<in> set (left_join (\<lambda>oi. o_order_id od = oi_order_id oi) (order_items db))"
      using left_join_not_Nil [of "\<lambda>oi. o_order_id od = oi_order_id oi" "order_items db"]
      by (cases "left_join (\<lambda>oi. o_order_id od = oi_order_id oi) (order_items db)") auto
    with od have "(od, oi, None) \<in> set (recon_join db)" by (simp add: in_recon_join)
    with od(2) show "x \<in> (\<lambda>(od, oi, p). o_order_id od) ` {j \<in> set (recon_join db). case j of (od, oi, p) \<Rightarrow> p = None}"
      by force
  qed
  finally show ?thesis by (simp only: none)
qed

lemma orphan_payments_query_set:
  "set (orphan_payments_query db) =
     {(p_payment_id p, p_order_id p, p_amount p) | p.
        p \<in> set (payments db) \<and> (\<forall>od\<in>set (orders db). o_order_id od \<noteq> p_order_id p)}"
proof -
  have none: "None \<in> set (left_join (\<lambda>od. p_order_id p = o_order_id od) (orders db)) \<longleftrightarrow>
        (\<forall>od\<in>set (orders db). o_order_id od \<noteq> p_order_id p)" for p :: payment
    by (auto simp: set_left_join filter_empty_conv)
  have "set (orphan_payments_query db) =
     {(p_payment_id p, p_order_id p, p_amount p) | p.
        p \<in> set (payments db) \<and> None \<in> set (left_join (\<lambda>od. p_order_id p = o_order_id od) (orders db))}"
    by (auto simp: orphan_payments_query_def)
  then show ?thesis by (simp only: none)
qed

text \<open>
  Where the first query is right. Take an order no two of whose payment rows carry the
  same amount (in particular an order with at most one payment). The query returns at
  least one row for it and one row for each of its payments. In every row of that order,
  \<open>order_total\<close> is the sum of quantity times price over the order's items (0 when it
  has none), \<open>payment_amount\<close> is the amount of one of its payments (NULL when it has
  none), and the row is flagged MATCH exactly when the absolute difference of the two is
  below 0.01, MISMATCH otherwise.
\<close>

lemma status_check_rows_of_order:
  assumes wf: "wf_database db" and od: "od \<in> set (orders db)"
    and dist: "distinct (map p_amount (filter (\<lambda>p. o_order_id od = p_order_id p) (payments db)))"
  shows "(\<exists>row\<in>set (status_check_query db). r_order_id row = o_order_id od) \<and>
    (\<forall>p\<in>set (payments db). o_order_id od = p_order_id p \<longrightarrow>
       (\<exists>row\<in>set (status_check_query db).
          r_order_id row = o_order_id od \<and> payment_amount row = Some (p_amount p))) \<and>
    (\<forall>row\<in>set (status_check_query db). r_order_id row = o_order_id od \<longrightarrow>
       order_total row =
         sum_list (map line_total (filter (\<lambda>oi. o_order_id od = oi_order_id oi) (order_items db))) \<and>
       payment_amount row \<in>
         set (left_join (\<lambda>a. True) (map p_amount (filter (\<lambda>p. o_order_id od = p_order_id p) (payments db)))) \<and>
       status_check row =
         (if \<exists>a. payment_amount row = Some a \<and> \<bar>order_total row - a\<bar> < 1 / 100
          then ''MATCH'' else ''MISMATCH''))"
proof -
  let ?ps = "left_join (\<lambda>p. o_order_id od = p_order_id p) (payments db)"
  obtain p0 where "p0 \<in> set ?ps"
    using left_join_not_Nil [of "\<lambda>p. o_order_id od = p_order_id p" "payments db"]
    by (cases ?ps) auto
  with od have ex: "\<exists>row\<in>set (status_check_query db). r_order_id row = o_order_id od"
    using recon_row_exists by blast
  have paid: "\<exists>row\<in>set (status_check_query db).
          r_order_id row = o_order_id od \<and> payment_amount row = Some (p_amount p)"
    if "p \<in> set (payments db)" "o_order_id od = p_order_id p" for p
  proof -
    from that have "Some p \<in> set ?ps" by (auto simp: set_left_join filter_empty_conv)
    from recon_row_exists [OF od this] show ?thesis by simp
  qed
  have rows: "order_total row =
         sum_list (map line_total (filter (\<lambda>oi. o_order_id od = oi_order_id oi) (order_items db))) \<and>
       payment_amount row \<in>
         set (left_join (\<lambda>a. True) (map p_amount (filter (\<lambda>p. o_order_id od = p_order_id p) (payments db)))) \<and>
       status_check row =
         (if \<exists>a. payment_amount row = Some a \<and> \<bar>order_total row - a\<bar> < 1 / 100
          then ''MATCH'' else ''MISMATCH'')"
    if "row \<in> set (status_check_query db)" "r_order_id row = o_order_id od" for row
  proof -
    from recon_row_of_order [OF wf od dist that] obtain p where p: "p \<in> set ?ps"
      and row: "row = recon_select (o_order_id od, o_order_date od, o_status od, map_option p_amount p)
                   [(od, oi, p). oi \<leftarrow> left_join (\<lambda>oi. o_order_id od = oi_order_id oi) (order_items db)]"
      by blast
    from row have "order_total row =
         sum_list (map line_total (filter (\<lambda>oi. o_order_id od = oi_order_id oi) (order_items db)))"
      by (simp only: recon_select_total)
    moreover from row have "payment_amount row = map_option p_amount p"
      by (simp add: recon_select_fields)
    with p have "payment_amount row \<in>
         set (left_join (\<lambda>a. True) (map p_amount (filter (\<lambda>p. o_order_id od = p_order_id p) (payments db))))"
      by (auto simp: set_left_join split: if_splits)
    moreover from row have "status_check row =
         (if \<exists>a. payment_amount row = Some a \<and> \<bar>order_total row - a\<bar> < 1 / 100
          then ''MATCH'' else ''MISMATCH'')"
      by (simp only: recon_select_status)
    ultimately show ?thesis by blast
  qed
  from ex paid rows show ?thesis by blast
qed

lemma sample_db_rows:
  "status_check_query sample_db =
     [\<lparr>r_order_id = 1, r_order_date = \<lparr>d_year = 2006, d_month = 1, d_day = 5\<rparr>,
        r_status = ''shipped'', order_total = 21, payment_amount = Some 21,
        status_check = ''MATCH'', difference = Some 0\<rparr>,
      \<lparr>r_order_id = 2, r_order_date = \<lparr>d_year = 2006, d_month = 2, d_day = 10\<rparr>,
        r_status = ''pending'', order_total = 45, payment_amount = Some (91 / 2),
        status_check = ''MISMATCH'', difference = Some (1 / 2)\<rparr>,
      \<lparr>r_order_id = 3, r_order_date = \<lparr>d_year = 2006, d_month = 2, d_day = 20\<rparr>,
        r_status = ''pending'', order_total = 0, payment_amount = None,
        status_check = ''MISMATCH'', difference = None\<rparr>]"
  by code_simp

lemma dup_payment_db_rows:
  "status_check_query dup_payment_db =
     [\<lparr>r_order_id = 1, r_order_date = \<lparr>d_year = 2006, d_month = 1, d_day = 5\<rparr>,
        r_status = ''shipped'', order_total = 20, payment_amount = Some 10,
        status_check = ''MISMATCH'', difference = Some 10\<rparr>]"
  by code_simp

text \<open>
  The script stops at the first row without a payment: an order with no payment row makes
  the run end in a TypeError before the second statement is executed.
\<close>

lemma unpaid_order_ends_run:
  assumes "od \<in> set (orders db)"
    and "\<forall>p\<in>set (payments db). p_order_id p \<noteq> o_order_id od"
  shows "check_payment_amounts db = Inl TypeError"
proof -
  have "filter (\<lambda>p. o_order_id od = p_order_id p) (payments db) = []"
    using assms(2) by (auto simp: filter_empty_conv)
  then have "None \<in> set (left_join (\<lambda>p. o_order_id od = p_order_id p) (payments db))"
    by (simp add: left_join_def)
  from recon_row_exists [OF assms(1) this]
  obtain row where row: "row \<in> set (status_check_query db)" "payment_amount row = None"
    by auto
  from row(1) have "row \<in> (\<lambda>k. recon_select k (filter (\<lambda>j. recon_key j = k) (recon_join db))) `
      recon_key ` set (recon_join db)"
    by (simp only: set_status_check_query)
  then obtain k where "row = recon_select k (filter (\<lambda>j. recon_key j = k) (recon_join db))"
    by blast
  with row(2) have "difference row = None"
    by (cases k) (simp add: recon_select_fields)
  with row(1) have "\<exists>row\<in>set (status_check_query db). difference row = None" by blast
  moreover from row(1) have "total_orders (status_check_query db) \<noteq> 0"
    by (auto simp: total_orders_def)
  ultimately show ?thesis by (simp add: check_payment_amounts_def Let_def)
qed

text \<open>So whenever the listing of orders without payments is reached, it is empty.\<close>

lemma no_payment_listing_empty:
  assumes "check_payment_amounts db = Inr rep"
  shows "rep_no_payment rep = []"
proof (rule ccontr)
  assume "rep_no_payment rep \<noteq> []"
  moreover from assms have "rep_no_payment rep = no_payment_query db"
    by (auto simp: check_payment_amounts_def Let_def split: if_splits)
  ultimately have "set (map fst (no_payment_query db)) \<noteq> {}" by simp
  then obtain od where "od \<in> set (orders db)"
    "\<forall>p\<in>set (payments db). p_order_id p \<noteq> o_order_id od"
    unfolding no_payment_query_ids by blast
  from unpaid_order_ends_run [OF this] assms show False by simp
qed

text \<open>
  Claim C8 at two failing inputs. First, one order whose single item is worth 10.00 and
  which has two payment rows of 10.00 each: the two LEFT JOINs pair the item with each
  payment, GROUP BY \<open>p.amount\<close> merges the pairs into one group, the item is summed
  twice, and the row reports an order total of 20.00 and MISMATCH although the difference
  between the order's total and either payment is 0. Second, the example database, whose
  order 3 has no payment row: the second statement would list it, but the run ends in a
  TypeError while the rows of the first query are printed, so nothing is listed.
\<close>

theorem reconciliation_fails_on_inputs:
  "status_check_query dup_payment_db =
     [\<lparr>r_order_id = 1, r_order_date = \<lparr>d_year = 2006, d_month = 1, d_day = 5\<rparr>,
        r_status = ''shipped'', order_total = 20, payment_amount = Some 10,
        status_check = ''MISMATCH'', difference = Some 10\<rparr>] \<and>
   sum_list (map line_total (order_items dup_payment_db)) = 10 \<and>
   map oi_order_id (order_items dup_payment_db) = [1] \<and>
   map p_order_id (payments dup_payment_db) = [1, 1] \<and>
   map p_amount (payments dup_payment_db) = [10, 10] \<and>
   wf_database dup_payment_db \<and>
   no_payment_query sample_db = [(3, 0)] \<and>
   check_payment_amounts sample_db = Inl TypeError"
proof -
  have "sum_list (map line_total (order_items dup_payment_db)) = 10 \<and>
   map oi_order_id (order_items dup_payment_db) = [1] \<and>
   map p_order_id (payments dup_payment_db) = [1, 1] \<and>
   map p_amount (payments dup_payment_db) = [10, 10] \<and>
   wf_database dup_payment_db"
    by code_simp
  moreover have "no_payment_query sample_db = [(3, 0)]"
    by code_simp
  moreover have "check_payment_amounts sample_db = Inl TypeError"
    by (simp add: check_payment_amounts_def sample_db_rows total_orders_def)
  ultimately show ?thesis using dup_payment_db_rows by blast
qed

section \<open>Properties of the monthly revenue\<close>

lemma in_order_lines:
  "(od, oi) \<in> set (order_lines db) \<longleftrightarrow>
     od \<in> set (orders db) \<and> oi \<in> set (order_items db) \<and> o_order_id od = oi_order_id oi"
  by (auto simp: order_lines_def)

lemma month_group:
  "filter (\<lambda>(od, oi). strftime_Ym (o_order_date od) = k) (order_lines db) =
     [(od, oi).
        od \<leftarrow> filter (\<lambda>od. strftime_Ym (o_order_date od) = k) (orders db),
        oi \<leftarrow> filter (\<lambda>oi. o_order_id od = oi_order_id oi) (order_items db)]"
proof -
  have "filter (\<lambda>(od, oi). strftime_Ym (o_order_date od) = k)
          (concat (map (\<lambda>od. map (Pair od) (f od)) os)) =
        concat (map (\<lambda>od. map (Pair od) (f od)) (filter (\<lambda>od. strftime_Ym (o_order_date od) = k) os))"
    for f :: "order \<Rightarrow> order_item list" and os
    by (induction os) (simp_all add: filter_map comp_def)
  then show ?thesis by (simp add: order_lines_def)
qed

lemma sum_list_filter_disjoint:
  fixes f :: "'a \<Rightarrow> rat"
  assumes "\<And>x. x \<in> set xs \<Longrightarrow> \<not> (P x \<and> Q x)"
  shows "sum_list (map f (filter (\<lambda>x. P x \<or> Q x) xs)) =
         sum_list (map f (filter P xs)) + sum_list (map f (filter Q xs))"
  using assms by (induction xs) auto

lemma sum_list_join:
  fixes f :: "'b \<Rightarrow> rat"
  assumes "distinct (map key os)"
  shows "sum_list (map f (concat (map (\<lambda>od. filter (\<lambda>oi. key od = g oi) items) os))) =
         sum_list (map f (filter (\<lambda>oi. \<exists>od\<in>set os. key od = g oi) items))"
  using assms
proof (induction os)
  case Nil
  then show ?case by simp
next
  case (Cons a os)
  have disj: "\<not> (key a = g oi \<and> (\<exists>od\<in>set os. key od = g oi))" for oi
    using Cons.prems by (auto simp: image_iff)
  have "sum_list (map f (filter (\<lambda>oi. \<exists>od\<in>set (a # os). key od = g oi) items)) =
        sum_list (map f (filter (\<lambda>oi. key a = g oi \<or> (\<exists>od\<in>set os. key od = g oi)) items))"
    by simp
  also have "\<dots> = sum_list (map f (filter (\<lambda>oi. key a = g oi) items)) +
        sum_list (map f (filter (\<lambda>oi. \<exists>od\<in>set os. key od = g oi) items))"
    by (rule sum_list_filter_disjoint) (use disj in blast)
  finally show ?case using Cons by simp
qed

lemma month_group_total:
  assumes "distinct (map o_order_id (orders db))"
  shows "sum_list (map (\<lambda>(od, oi). line_total oi)
           (filter (\<lambda>(od, oi). strftime_Ym (o_order_date od) = k) (order_lines db))) =
         sum_list (map line_total
           (filter (\<lambda>oi. \<exists>od\<in>set (orders db). o_order_id od = oi_order_id oi \<and>
                          strftime_Ym (o_order_date od) = k) (order_items db)))"
proof -
  let ?os = "filter (\<lambda>od. strftime_Ym (o_order_date od) = k) (orders db)"
  have d: "distinct (map o_order_id ?os)"
    using assms by (rule distinct_map_filter)
  have "map (\<lambda>(od, oi). line_total oi)
           (filter (\<lambda>(od, oi). strftime_Ym (o_order_date od) = k) (order_lines db)) =
        map line_total (concat (map (\<lambda>od. filter (\<lambda>oi. o_order_id od = oi_order_id oi) (order_items db)) ?os))"
    by (simp add: month_group map_concat comp_def)
  then have "sum_list (map (\<lambda>(od, oi). line_total oi)
           (filter (\<lambda>(od, oi). strftime_Ym (o_order_date od) = k) (order_lines db))) =
        sum_list (map line_total (concat (map (\<lambda>od. filter (\<lambda>oi. o_order_id od = oi_order_id oi) (order_items db)) ?os)))"
    by (rule arg_cong)
  also have "\<dots> = sum_list (map line_total
        (filter (\<lambda>oi. \<exists>od\<in>set ?os. o_order_id od = oi_order_id oi) (order_items db)))"
    by (rule sum_list_join [OF d])
  also have "filter (\<lambda>oi. \<exists>od\<in>set ?os. o_order_id od = oi_order_id oi) (order_items db) =
        filter (\<lambda>oi. \<exists>od\<in>set (orders db). o_order_id od = oi_order_id oi \<and>
                          strftime_Ym (o_order_date od) = k) (order_items db)"
    by (rule filter_cong) auto
  finally show ?thesis .
qed

lemma month_group_orders:
  "set (map (\<lambda>(od, oi). o_order_id od)
          (filter (\<lambda>(od, oi). strftime_Ym (o_order_date od) = k) (order_lines db))) =
   {o_order_id od | od. od \<in> set (orders db) \<and> strftime_Ym (o_order_date od) = k \<and>
      (\<exists>oi\<in>set (order_items db). oi_order_id oi = o_order_id od)}"
  by (force simp: in_order_lines)

lemma set_monthly_revenue:
  "set (monthly_revenue db) =
     (\<lambda>k. month_select k (filter (\<lambda>(od, oi). strftime_Ym (o_order_date od) = k) (order_lines db))) `
       (\<lambda>(od, oi). strftime_Ym (o_order_date od)) ` set (order_lines db)"
  by (simp add: monthly_revenue_def Let_def)

lemma monthly_revenue_months:
  "map m_month (monthly_revenue db) =
     remdups (map (\<lambda>(od, oi). strftime_Ym (o_order_date od)) (order_lines db))"
  by (simp add: monthly_revenue_def Let_def month_select_def comp_def)

lemma month_year_num:
  assumes "row \<in> set (monthly_revenue db)"
  shows "m_year row = fst (m_month row) \<and> m_month_num row = int (snd (m_month row))"
proof -
  from assms obtain od oi where j: "(od, oi) \<in> set (order_lines db)"
    and row: "row = month_select (strftime_Ym (o_order_date od))
        (filter (\<lambda>(od', oi). strftime_Ym (o_order_date od') = strftime_Ym (o_order_date od)) (order_lines db))"
    by (auto simp: set_monthly_revenue)
  let ?g = "filter (\<lambda>(od', oi). strftime_Ym (o_order_date od') = strftime_Ym (o_order_date od)) (order_lines db)"
  from j have "(od, oi) \<in> set ?g" by simp
  then have "?g \<noteq> []" by (metis empty_iff empty_set)
  then have "hd ?g \<in> set ?g" by (rule hd_in_set)
  then have "strftime_Ym (o_order_date (fst (hd ?g))) = strftime_Ym (o_order_date od)"
    by (auto simp: case_prod_beta)
  with row show ?thesis
    by (simp add: month_select_def strftime_Ym_def strftime_Y_def strftime_m_def)
qed

text \<open>
  Claim C3. The CTE \<open>monthly_revenue\<close> has one row per month, for exactly the months in
  which some order with at least one order item was placed (an order without items adds
  no month). The revenue of a month is the sum of quantity times price over all order
  items whose parent order is dated in that month, and its order count is the number of
  distinct orders of that month that have an item.
\<close>

theorem monthly_revenue_is_sum:
  assumes "wf_database db"
  shows "distinct (map m_month (monthly_revenue db)) \<and>
    set (map m_month (monthly_revenue db)) =
      {strftime_Ym (o_order_date od) | od. od \<in> set (orders db) \<and>
         (\<exists>oi\<in>set (order_items db). oi_order_id oi = o_order_id od)} \<and>
    (\<forall>row\<in>set (monthly_revenue db).
       m_total_revenue row =
         sum_list (map line_total
           (filter (\<lambda>oi. \<exists>od\<in>set (orders db). o_order_id od = oi_order_id oi \<and>
                          strftime_Ym (o_order_date od) = m_month row) (order_items db))) \<and>
       m_order_count row =
         card {o_order_id od | od. od \<in> set (orders db) \<and>
                 strftime_Ym (o_order_date od) = m_month row \<and>
                 (\<exists>oi\<in>set (order_items db). oi_order_id oi = o_order_id od)})"
proof -
  from assms have d: "distinct (map o_order_id (orders db))"
    by (simp add: wf_database_def rowid_table_distinct)
  have a: "distinct (map m_month (monthly_revenue db))"
    by (simp add: monthly_revenue_months)
  have b: "set (map m_month (monthly_revenue db)) =
      {strftime_Ym (o_order_date od) | od. od \<in> set (orders db) \<and>
         (\<exists>oi\<in>set (order_items db). oi_order_id oi = o_order_id od)}"
    by (force simp: monthly_revenue_months in_order_lines)
  have c: "m_total_revenue row =
         sum_list (map line_total
           (filter (\<lambda>oi. \<exists>od\<in>set (orders db). o_order_id od = oi_order_id oi \<and>
                          strftime_Ym (o_order_date od) = m_month row) (order_items db))) \<and>
       m_order_count row =
         card {o_order_id od | od. od \<in> set (orders db) \<and>
                 strftime_Ym (o_order_date od) = m_month row \<and>
                 (\<exists>oi\<in>set (order_items db). oi_order_id oi = o_order_id od)}"
    if "row \<in> set (monthly_revenue db)" for row
  proof -
    from that obtain k where
      row: "row = month_select k (filter (\<lambda>(od, oi). strftime_Ym (o_order_date od) = k) (order_lines db))"
      by (auto simp: set_monthly_revenue)
    then have k: "m_month row = k" by (simp add: month_select_def)
    from row have "m_total_revenue row = sum_list (map (\<lambda>(od, oi). line_total oi)
           (filter (\<lambda>(od, oi). strftime_Ym (o_order_date od) = k) (order_lines db)))"
      by (simp add: month_select_def)
    then have t: "m_total_revenue row = sum_list (map line_total
           (filter (\<lambda>oi. \<exists>od\<in>set (orders db). o_order_id od = oi_order_id oi \<and>
                          strftime_Ym (o_order_date od) = k) (order_items db)))"
      by (simp only: month_group_total [OF d])
    from row have "m_order_count row = card (set (map (\<lambda>(od, oi). o_order_id od)
          (filter (\<lambda>(od, oi). strftime_Ym (o_order_date od) = k) (order_lines db))))"
      by (simp add: month_select_def length_remdups_card_conv)
    then have "m_order_count row = card {o_order_id od | od. od \<in> set (orders db) \<and>
                 strftime_Ym (o_order_date od) = k \<and>
                 (\<exists>oi\<in>set (order_items db). oi_order_id oi = o_order_id od)}"
      by (simp only: month_group_orders)
    with t k show ?thesis by simp
  qed
  from a b c show ?thesis by blast
qed

theorem monthly_revenue_is_sum_witness:
  "wf_database sample_db \<and>
   distinct (map m_month (monthly_revenue sample_db)) \<and>
   m_total_revenue (monthly_revenue sample_db ! 1) = 45"
proof -
  let ?row = "monthly_revenue sample_db ! 1"
  have h: "wf_database sample_db" by code_simp
  have rows: "map m_month (monthly_revenue sample_db) = [(2006, 1), (2006, 2)]" by code_simp
  then have len: "length (monthly_revenue sample_db) = 2"
    by (metis length_map length_Cons list.size(3) numeral_2_eq_2)
  then have mem: "?row \<in> set (monthly_revenue sample_db)" by simp
  from len rows have k: "m_month ?row = (2006, 2)"
    by (metis nth_map one_less_numeral_iff semiring_norm(76) nth_Cons_0 nth_Cons_Suc One_nat_def)
  from monthly_revenue_is_sum [OF h] mem
  have "m_total_revenue ?row =
      sum_list (map line_total
        (filter (\<lambda>oi. \<exists>od\<in>set (orders sample_db). o_order_id od = oi_order_id oi \<and>
                       strftime_Ym (o_order_date od) = m_month ?row) (order_items sample_db)))"
    by blast
  also have "\<dots> = 45" unfolding k by code_simp
  finally have "m_total_revenue ?row = 45" .
  with h monthly_revenue_is_sum [OF h] show ?thesis by blast
qed

section \<open>Properties of the trend queries and of the forecast\<close>

lemma two_month_revenue:
  "by_year_month (monthly_revenue two_month_db) =
     [\<lparr>m_month = (2006, 1), m_year = 2006, m_month_num = 1, m_total_revenue = 300, m_order_count = 1\<rparr>,
      \<lparr>m_month = (2006, 2), m_year = 2006, m_month_num = 2, m_total_revenue = 400, m_order_count = 1\<rparr>]"
  by code_simp

lemma two_month_self_join:
  "self_join_query two_month_db =
     [\<lparr>t_month = (2006, 1), t_monthly_revenue = 300, t_order_count = 1,
        t_previous_month_revenue = 0, t_revenue_change = 300,
        t_percent_change = 0, t_trend = Growing\<rparr>,
      \<lparr>t_month = (2006, 2), t_monthly_revenue = 400, t_order_count = 1,
        t_previous_month_revenue = 300, t_revenue_change = 100,
        t_percent_change = 3333 / 100, t_trend = Growing\<rparr>]"
  by code_simp

lemma two_month_lag:
  "lag_query two_month_db =
     [\<lparr>t_month = (2006, 1), t_monthly_revenue = 300, t_order_count = 1,
        t_previous_month_revenue = 0, t_revenue_change = 300,
        t_percent_change = 0, t_trend = Growing, forecast_next_month = 600\<rparr>,
      \<lparr>t_month = (2006, 2), t_monthly_revenue = 400, t_order_count = 1,
        t_previous_month_revenue = 300, t_revenue_change = 100,
        t_percent_change = 3333 / 100, t_trend = Growing, forecast_next_month = 600\<rparr>]"
  by code_simp

lemma gap_self_join:
  "self_join_query gap_db =
     [\<lparr>t_month = (2006, 1), t_monthly_revenue = 300, t_order_count = 1,
        t_previous_month_revenue = 0, t_revenue_change = 300,
        t_percent_change = 0, t_trend = Growing\<rparr>,
      \<lparr>t_month = (2006, 3), t_monthly_revenue = 400, t_order_count = 1,
        t_previous_month_revenue = 0, t_revenue_change = 400,
        t_percent_change = 0, t_trend = Growing\<rparr>]"
  by code_simp

lemma gap_lag:
  "lag_query gap_db =
     [\<lparr>t_month = (2006, 1), t_monthly_revenue = 300, t_order_count = 1,
        t_previous_month_revenue = 0, t_revenue_change = 300,
        t_percent_change = 0, t_trend = Growing, forecast_next_month = 600\<rparr>,
      \<lparr>t_month = (2006, 3), t_monthly_revenue = 400, t_order_count = 1,
        t_previous_month_revenue = 300, t_revenue_change = 100,
        t_percent_change = 3333 / 100, t_trend = Growing, forecast_next_month = 600\<rparr>]"
  by code_simp

text \<open>
  Claim C1 at a failing input. With 300.00 in January and 400.00 in February the only
  month-over-month delta is 100.00, so the specified forecast is 500, 600, 700. The
  compatible and the chart script average the non-zero values of the column
  \<open>revenue_change\<close>, whose value for the first month is that month's whole revenue
  (its previous revenue is taken as 0): the average is (300 + 100) / 2 = 200 and the
  forecast 600, 800, 1000.
\<close>

theorem forecast_differs_from_spec:
  "map m_total_revenue (by_year_month (monthly_revenue two_month_db)) = [300, 400] \<and>
   sales_forecast two_month_db = [600, 800, 1000] \<and>
   map (linear_forecast_spec [300, 400]) [1, 2, 3] = [500, 600, 700]"
proof -
  have "sales_forecast two_month_db = [600, 800, 1000]"
    by (simp add: sales_forecast_def two_month_self_join Let_def last_month_revenue_def
        avg_growth_def revenue_changes_def)
  moreover have "map (linear_forecast_spec [300, 400]) [1, 2, 3] = [500, 600, 700]"
    by (simp add: linear_forecast_spec_def month_over_month_deltas_def avg_def)
  ultimately show ?thesis by (simp add: two_month_revenue)
qed

text \<open>
  Claim C2 as stated fails when a month without revenue lies between two months with
  revenue: LAG takes the previous row (January), the self-join looks for the previous
  calendar month (February), finds none and reports 0.
\<close>

theorem lag_vs_self_join_counterexample:
  "map t_month (lag_query gap_db) = [(2006, 1), (2006, 3)] \<and>
   map t_month (self_join_query gap_db) = [(2006, 1), (2006, 3)] \<and>
   map t_previous_month_revenue (lag_query gap_db) = [0, 300] \<and>
   map t_previous_month_revenue (self_join_query gap_db) = [0, 0] \<and>
   map t_revenue_change (lag_query gap_db) = [300, 100] \<and>
   map t_revenue_change (self_join_query gap_db) = [300, 400] \<and>
   map t_percent_change (lag_query gap_db) = [0, 3333 / 100] \<and>
   map t_percent_change (self_join_query gap_db) = [0, 0]"
  by (simp add: gap_lag gap_self_join)

text \<open>
  Claim C4 as stated fails because both queries wrap the quotient in ROUND(..., 2):
  from 300.00 to 400.00 the change is 100/3 percent, and 33.33 is reported.
\<close>

theorem percent_change_rounded_counterexample:
  "map m_total_revenue (by_year_month (monthly_revenue two_month_db)) = [300, 400] \<and>
   map t_percent_change (lag_query two_month_db) = [0, 3333 / 100] \<and>
   map t_percent_change (self_join_query two_month_db) = [0, 3333 / 100] \<and>
   (400 - 300) / 300 * 100 = (100 / 3 :: rat) \<and>
   (100 / 3 :: rat) \<noteq> 3333 / 100"
  by (simp add: two_month_revenue two_month_lag two_month_self_join)

lemma length_lag: "length (lag p xs) = length xs"
  by (induction xs arbitrary: p) simp_all

lemma lag_nth:
  "i < length xs \<Longrightarrow> lag p xs ! i = (if i = 0 then p else Some (xs ! (i - 1)))"
proof (induction xs arbitrary: p i)
  case Nil
  then show ?case by simp
next
  case (Cons x xs)
  then show ?case by (cases i) (auto simp: nth_Cons')
qed

lemma truncate_lag_select:
  "trend_row.truncate (lag_select (m, map_option m_total_revenue m2, a)) = self_join_select (m, m2)"
  by (cases m2)
     (simp_all add: lag_select_def self_join_select_def trend_row.defs revenue_change_def
        percent_change_def coalesce_def Let_def)

lemma insort_key_map:
  "insort_key k (f x) (map f xs) = map f (insort_key (\<lambda>y. k (f y)) x xs)"
  by (induction xs) simp_all

lemma sort_key_map: "sort_key k (map f xs) = map f (sort_key (\<lambda>y. k (f y)) xs)"
  by (induction xs) (simp_all add: insort_key_map)

lemma month_keys_distinct:
  "distinct (map (\<lambda>m. (m_year m, m_month_num m)) (monthly_revenue db))"
proof -
  have "map (\<lambda>m. (m_year m, m_month_num m)) (monthly_revenue db) =
        map (\<lambda>m. (fst (m_month m), int (snd (m_month m)))) (monthly_revenue db)"
    by (rule map_cong) (simp_all add: month_year_num)
  also have "\<dots> = map (\<lambda>k. (fst k, int (snd k))) (map m_month (monthly_revenue db))"
    by (simp add: comp_def)
  finally have eq: "map (\<lambda>m. (m_year m, m_month_num m)) (monthly_revenue db) =
        map (\<lambda>k. (fst k, int (snd k))) (map m_month (monthly_revenue db))" .
  have "inj_on (\<lambda>k :: nat \<times> nat. (fst k, int (snd k))) A" for A
    by (auto simp: inj_on_def prod_eq_iff)
  then have "distinct (map (\<lambda>k. (fst k, int (snd k))) (map m_month (monthly_revenue db)))"
    by (simp add: distinct_map monthly_revenue_months)
  then show ?thesis unfolding eq .
qed

lemma prev_month_join_key:
  "prev_month_join m1 m2 \<longleftrightarrow>
     (m_year m2, m_month_num m2) = (m_year m1, m_month_num m1 - 1)"
  by (auto simp: prev_month_join_def text_eq_integer_def)

lemma left_join_prev:
  assumes "distinct (map (\<lambda>m. (m_year m, m_month_num m)) ms)"
    and "m2 \<in> set ms" and "prev_month_join m1 m2"
  shows "left_join (prev_month_join m1) ms = [Some m2]"
proof -
  from assms(3) have "prev_month_join m1 =
      (\<lambda>y. (m_year y, m_month_num y) = (m_year m2, m_month_num m2))"
    by (auto simp: prev_month_join_key fun_eq_iff)
  moreover have "filter (\<lambda>y. (m_year y, m_month_num y) = (m_year m2, m_month_num m2)) ms = [m2]"
    using filter_distinct_map_single [OF assms(1) assms(2)] by simp
  ultimately show ?thesis by (simp add: left_join_def)
qed

lemma left_join_no_prev:
  assumes "\<And>m2. m2 \<in> set ms \<Longrightarrow> \<not> prev_month_join m1 m2"
  shows "left_join (prev_month_join m1) ms = [None]"
proof -
  from assms have "filter (prev_month_join m1) ms = []" by (simp add: filter_empty_conv)
  then show ?thesis by (simp add: left_join_def)
qed

lemma left_join_single:
  assumes "distinct (map (\<lambda>m. (m_year m, m_month_num m)) ms)"
  shows "left_join (prev_month_join m1) ms = [hd (left_join (prev_month_join m1) ms)]"
proof (cases "\<exists>m2\<in>set ms. prev_month_join m1 m2")
  case True
  then obtain m2 where "m2 \<in> set ms" "prev_month_join m1 m2" by blast
  from left_join_prev [OF assms this] show ?thesis by simp
next
  case False
  then have "left_join (prev_month_join m1) ms = [None]"
    by (intro left_join_no_prev) blast
  then show ?thesis by simp
qed

lemma concat_map_singletons:
  "(\<And>x. f x = [g x]) \<Longrightarrow> concat (map f xs) = map g xs"
  by (induction xs) simp_all

lemma self_join_query_map:
  "self_join_query db =
     map (\<lambda>m1. self_join_select (m1, hd (left_join (prev_month_join m1) (monthly_revenue db))))
       (by_year_month (monthly_revenue db))"
proof -
  let ?ms = "monthly_revenue db"
  let ?p = "\<lambda>m1. hd (left_join (prev_month_join m1) ?ms)"
  have single: "map (Pair m1) (left_join (prev_month_join m1) ?ms) = [(m1, ?p m1)]" for m1
    using left_join_single [OF month_keys_distinct, of m1 db] by (metis list.simps(8,9))
  have joined: "[(m1, m2). m1 \<leftarrow> ?ms, m2 \<leftarrow> left_join (prev_month_join m1) ?ms] =
        map (\<lambda>m1. (m1, ?p m1)) ?ms"
    by (rule concat_map_singletons) (rule single)
  have "sort_key (\<lambda>(m1, m2). (m_year m1, m_month_num m1)) (map (\<lambda>m1. (m1, ?p m1)) ?ms) =
        map (\<lambda>m1. (m1, ?p m1)) (by_year_month ?ms)"
    by (simp add: sort_key_map by_year_month_def)
  then have "map self_join_select
        (sort_key (\<lambda>(m1, m2). (m_year m1, m_month_num m1)) (map (\<lambda>m1. (m1, ?p m1)) ?ms)) =
      map (\<lambda>m1. self_join_select (m1, ?p m1)) (by_year_month ?ms)"
    by (simp add: comp_def)
  then show ?thesis
    unfolding self_join_query_def Let_def joined .
qed

lemma lag_query_nth:
  "lag_query db =
     map (\<lambda>i. lag_select
            (by_year_month (monthly_revenue db) ! i,
             lag None (map m_total_revenue (by_year_month (monthly_revenue db))) ! i,
             sql_round2 (avg (map revenue_change (take (Suc i) (monthly_with_previous db))))))
       [0..<length (by_year_month (monthly_revenue db))]"
proof -
  let ?ms = "by_year_month (monthly_revenue db)"
  let ?mps = "monthly_with_previous db"
  have mps: "?mps = zip ?ms (lag None (map m_total_revenue ?ms))"
    by (simp add: monthly_with_previous_def Let_def)
  then have len: "length ?mps = length ?ms" by (simp add: length_lag)
  have "fst (?mps ! i) = ?ms ! i \<and> snd (?mps ! i) = lag None (map m_total_revenue ?ms) ! i"
    if "i < length ?ms" for i
    using that by (simp add: mps length_lag)
  then show ?thesis
    by (simp add: lag_query_def monthly_trends_def Let_def len)
qed

lemma consecutive_nth:
  assumes "successively next_month ms" and "i < length ms"
  shows "m_year (ms ! i) = m_year (ms ! 0) \<and> m_month_num (ms ! i) = m_month_num (ms ! 0) + int i"
  using assms(2)
proof (induction i)
  case 0
  then show ?case by simp
next
  case (Suc i)
  then have "next_month (ms ! i) (ms ! Suc i)"
    using assms(1) by (simp add: successively_conv_nth)
  with Suc show ?case by (simp add: next_month_def)
qed

lemma consecutive_prev:
  assumes d: "distinct (map (\<lambda>m. (m_year m, m_month_num m)) ms0)"
    and s: "set ms = set ms0"
    and c: "successively next_month ms" and i: "i < length ms"
  shows "hd (left_join (prev_month_join (ms ! i)) ms0) = (if i = 0 then None else Some (ms ! (i - 1)))"
proof (cases i)
  case 0
  have "\<not> prev_month_join (ms ! 0) m2" if "m2 \<in> set ms0" for m2
  proof -
    from that s obtain j where j: "j < length ms" "m2 = ms ! j"
      by (metis in_set_conv_nth)
    from consecutive_nth [OF c j(1)] j(2) show ?thesis
      by (simp add: prev_month_join_key)
  qed
  then have "left_join (prev_month_join (ms ! 0)) ms0 = [None]"
    by (rule left_join_no_prev)
  with 0 show ?thesis by simp
next
  case (Suc j)
  with i have j: "j < length ms" by simp
  from Suc i c have "next_month (ms ! j) (ms ! Suc j)"
    by (simp add: successively_conv_nth)
  then have "prev_month_join (ms ! Suc j) (ms ! j)"
    by (simp add: prev_month_join_key next_month_def)
  moreover from j s have "ms ! j \<in> set ms0" by (metis nth_mem)
  ultimately have "left_join (prev_month_join (ms ! Suc j)) ms0 = [Some (ms ! j)]"
    using left_join_prev [OF d] by blast
  with Suc show ?thesis by simp
qed

text \<open>
  Claim C2, as amended. When the months that have revenue are successive months of one
  calendar year (each row of the monthly revenue, in order, is the month after the row
  before it), the query with LAG and the self-join return the same rows in the same
  order: month, monthly revenue, order count, previous-month revenue, revenue change,
  percent change and trend are equal. The query with LAG has one more column,
  \<open>forecast_next_month\<close>, which the comparison drops.
\<close>

theorem lag_query_eq_self_join:
  assumes "successively next_month (by_year_month (monthly_revenue db))"
  shows "map trend_row.truncate (lag_query db) = self_join_query db"
proof -
  let ?raw = "monthly_revenue db"
  let ?ms = "by_year_month ?raw"
  let ?p = "\<lambda>m1. hd (left_join (prev_month_join m1) ?raw)"
  have s: "set ?ms = set ?raw" by (simp add: by_year_month_def)
  have row: "trend_row.truncate (lag_select (?ms ! i, lag None (map m_total_revenue ?ms) ! i, a)) =
        self_join_select (?ms ! i, ?p (?ms ! i))"
    if "i < length ?ms" for i a
  proof -
    from that have "lag None (map m_total_revenue ?ms) ! i =
        map_option m_total_revenue (if i = 0 then None else Some (?ms ! (i - 1)))"
      by (simp add: lag_nth)
    also have "(if i = 0 then None else Some (?ms ! (i - 1))) = ?p (?ms ! i)"
      using consecutive_prev [OF month_keys_distinct s assms that] by simp
    finally show ?thesis by (simp only: truncate_lag_select)
  qed
  have "self_join_query db = map (\<lambda>i. self_join_select (?ms ! i, ?p (?ms ! i))) [0..<length ?ms]"
  proof -
    have "map (\<lambda>m1. self_join_select (m1, ?p m1)) ?ms =
          map (\<lambda>m1. self_join_select (m1, ?p m1)) (map (\<lambda>i. ?ms ! i) [0..<length ?ms])"
      by (simp only: map_nth)
    then show ?thesis by (simp add: self_join_query_map comp_def)
  qed
  moreover have "map trend_row.truncate (lag_query db) =
      map (\<lambda>i. self_join_select (?ms ! i, ?p (?ms ! i))) [0..<length ?ms]"
    by (simp add: lag_query_nth row comp_def)
  ultimately show ?thesis by simp
qed

lemma two_month_consecutive:
  "successively next_month (by_year_month (monthly_revenue two_month_db))"
  by (simp add: two_month_revenue next_month_def)

theorem lag_query_eq_self_join_witness:
  "successively next_month (by_year_month (monthly_revenue two_month_db)) \<and>
   map trend_row.truncate (lag_query two_month_db) = self_join_query two_month_db"
  using two_month_consecutive lag_query_eq_self_join [OF two_month_consecutive] by blast

lemma first_month_no_prev:
  assumes "m2 \<in> set ms"
  shows "\<not> prev_month_join (by_year_month ms ! 0) m2"
proof
  let ?key = "\<lambda>m. (m_year m, m_month_num m)"
  let ?s = "by_year_month ms"
  assume p: "prev_month_join (?s ! 0) m2"
  from assms have "m2 \<in> set ?s" by (simp add: by_year_month_def)
  then obtain j where j: "j < length ?s" "m2 = ?s ! j" by (metis in_set_conv_nth)
  have "sorted (map ?key ?s)" by (simp add: by_year_month_def)
  with j(1) have "map ?key ?s ! 0 \<le> map ?key ?s ! j"
    by (intro sorted_nth_mono) simp_all
  moreover from j(1) have "map ?key ?s ! 0 = ?key (?s ! 0)"
    by (intro nth_map) auto
  moreover from j have "map ?key ?s ! j = ?key m2" by simp
  ultimately have le: "?key (?s ! 0) \<le> ?key m2" by (simp only:)
  from p have "?key m2 = (m_year (?s ! 0), m_month_num (?s ! 0) - 1)"
    by (simp only: prev_month_join_key)
  then have "?key m2 < ?key (?s ! 0)" by simp
  with le show False using leD by blast
qed

lemma self_join_query_nth:
  assumes "i < length (by_year_month (monthly_revenue db))"
  shows "self_join_query db ! i =
     self_join_select (by_year_month (monthly_revenue db) ! i,
       hd (left_join (prev_month_join (by_year_month (monthly_revenue db) ! i)) (monthly_revenue db)))"
  using assms by (simp add: self_join_query_map)

lemma lag_select_percent:
  "t_month (lag_select (m, p, a)) = m_month m"
  "t_percent_change (lag_select (m, None, a)) = 0"
  "0 < v \<Longrightarrow> t_percent_change (lag_select (m, Some v, a)) =
     sql_round2 ((m_total_revenue m - v) * 100 / v)"
  by (simp_all add: lag_select_def percent_change_def coalesce_def Let_def)

lemma self_join_select_percent:
  "t_month (self_join_select (m, p)) = m_month m"
  "t_percent_change (self_join_select (m, None)) = 0"
  "0 < m_total_revenue m2 \<Longrightarrow> t_percent_change (self_join_select (m, Some m2)) =
     sql_round2 ((m_total_revenue m - m_total_revenue m2) * 100 / m_total_revenue m2)"
  by (simp_all add: self_join_select_def Let_def)

text \<open>
  Claim C4, as amended. Both trend queries return one row per month of the monthly
  revenue, in the order of year and month. The first row reports a percent change of 0.
  In the query with LAG, a later row whose previous row has positive revenue reports
  (current - previous) * 100 / previous rounded to two decimals. In the self-join, a row
  whose previous calendar month of the same year has a row with positive revenue reports
  the same expression, rounded to two decimals, for that month.
\<close>

theorem percent_change_rounded:
  "length (lag_query db) = length (by_year_month (monthly_revenue db)) \<and>
   length (self_join_query db) = length (by_year_month (monthly_revenue db)) \<and>
   (\<forall>i. i < length (by_year_month (monthly_revenue db)) \<longrightarrow>
      t_month (lag_query db ! i) = m_month (by_year_month (monthly_revenue db) ! i) \<and>
      t_month (self_join_query db ! i) = m_month (by_year_month (monthly_revenue db) ! i) \<and>
      (i = 0 \<longrightarrow>
         t_percent_change (lag_query db ! i) = 0 \<and> t_percent_change (self_join_query db ! i) = 0) \<and>
      (0 < i \<and> 0 < m_total_revenue (by_year_month (monthly_revenue db) ! (i - 1)) \<longrightarrow>
         t_percent_change (lag_query db ! i) =
           sql_round2 ((m_total_revenue (by_year_month (monthly_revenue db) ! i)
                        - m_total_revenue (by_year_month (monthly_revenue db) ! (i - 1))) * 100
                       / m_total_revenue (by_year_month (monthly_revenue db) ! (i - 1)))) \<and>
      (\<forall>m2\<in>set (monthly_revenue db).
         m_year m2 = m_year (by_year_month (monthly_revenue db) ! i) \<and>
         m_month_num m2 = m_month_num (by_year_month (monthly_revenue db) ! i) - 1 \<and>
         0 < m_total_revenue m2 \<longrightarrow>
         t_percent_change (self_join_query db ! i) =
           sql_round2 ((m_total_revenue (by_year_month (monthly_revenue db) ! i)
                        - m_total_revenue m2) * 100 / m_total_revenue m2)))"
proof -
  let ?raw = "monthly_revenue db"
  let ?ms = "by_year_month ?raw"
  have len1: "length (lag_query db) = length ?ms" by (simp add: lag_query_nth)
  have len2: "length (self_join_query db) = length ?ms" by (simp add: self_join_query_map)
  have rows: "t_month (lag_query db ! i) = m_month (?ms ! i) \<and>
      t_month (self_join_query db ! i) = m_month (?ms ! i) \<and>
      (i = 0 \<longrightarrow>
         t_percent_change (lag_query db ! i) = 0 \<and> t_percent_change (self_join_query db ! i) = 0) \<and>
      (0 < i \<and> 0 < m_total_revenue (?ms ! (i - 1)) \<longrightarrow>
         t_percent_change (lag_query db ! i) =
           sql_round2 ((m_total_revenue (?ms ! i) - m_total_revenue (?ms ! (i - 1))) * 100
                       / m_total_revenue (?ms ! (i - 1)))) \<and>
      (\<forall>m2\<in>set ?raw.
         m_year m2 = m_year (?ms ! i) \<and> m_month_num m2 = m_month_num (?ms ! i) - 1 \<and>
         0 < m_total_revenue m2 \<longrightarrow>
         t_percent_change (self_join_query db ! i) =
           sql_round2 ((m_total_revenue (?ms ! i) - m_total_revenue m2) * 100 / m_total_revenue m2))"
    if i: "i < length ?ms" for i
  proof -
    obtain a where lagrow: "lag_query db ! i =
        lag_select (?ms ! i, lag None (map m_total_revenue ?ms) ! i, a)"
      using i by (simp add: lag_query_nth)
    have sjrow: "self_join_query db ! i =
        self_join_select (?ms ! i, hd (left_join (prev_month_join (?ms ! i)) ?raw))"
      using i by (rule self_join_query_nth)
    have m1: "t_month (lag_query db ! i) = m_month (?ms ! i)"
      by (simp add: lagrow lag_select_percent)
    have m2: "t_month (self_join_query db ! i) = m_month (?ms ! i)"
      by (simp add: sjrow self_join_select_percent)
    have first: "t_percent_change (lag_query db ! i) = 0 \<and> t_percent_change (self_join_query db ! i) = 0"
      if "i = 0"
    proof -
      from i that have "lag None (map m_total_revenue ?ms) ! i = None" by (simp add: lag_nth)
      then have "t_percent_change (lag_query db ! i) = 0"
        by (simp add: lagrow lag_select_percent)
      moreover have "left_join (prev_month_join (?ms ! 0)) ?raw = [None]"
        by (rule left_join_no_prev) (rule first_month_no_prev)
      with that have "hd (left_join (prev_month_join (?ms ! i)) ?raw) = None" by simp
      then have "t_percent_change (self_join_query db ! i) = 0"
        by (simp only: sjrow self_join_select_percent)
      ultimately show ?thesis by simp
    qed
    have later: "t_percent_change (lag_query db ! i) =
           sql_round2 ((m_total_revenue (?ms ! i) - m_total_revenue (?ms ! (i - 1))) * 100
                       / m_total_revenue (?ms ! (i - 1)))"
      if "0 < i" "0 < m_total_revenue (?ms ! (i - 1))"
    proof -
      from i that(1) have "lag None (map m_total_revenue ?ms) ! i = Some (m_total_revenue (?ms ! (i - 1)))"
        by (simp add: lag_nth)
      with that(2) show ?thesis by (simp add: lagrow lag_select_percent)
    qed
    have calendar: "t_percent_change (self_join_query db ! i) =
           sql_round2 ((m_total_revenue (?ms ! i) - m_total_revenue m2) * 100 / m_total_revenue m2)"
      if "m2 \<in> set ?raw" "m_year m2 = m_year (?ms ! i)"
         "m_month_num m2 = m_month_num (?ms ! i) - 1" "0 < m_total_revenue m2" for m2
    proof -
      from that(2,3) have "prev_month_join (?ms ! i) m2" by (simp add: prev_month_join_key)
      from left_join_prev [OF month_keys_distinct that(1) this]
      have "hd (left_join (prev_month_join (?ms ! i)) ?raw) = Some m2" by simp
      with that(4) show ?thesis by (simp add: sjrow self_join_select_percent)
    qed
    from m1 m2 first later calendar show ?thesis by blast
  qed
  from len1 len2 rows show ?thesis by blast
qed

theorem percent_change_rounded_witness:
  "t_percent_change (lag_query two_month_db ! 0) = 0 \<and>
   t_percent_change (lag_query two_month_db ! 1) = sql_round2 ((400 - 300) * 100 / 300) \<and>
   length (lag_query two_month_db) = 2"
proof -
  let ?ms = "by_year_month (monthly_revenue two_month_db)"
  have len: "length ?ms = 2" by (simp add: two_month_revenue)
  have t0: "m_total_revenue (?ms ! 0) = 300" and t1: "m_total_revenue (?ms ! 1) = 400"
    by (simp_all add: two_month_revenue)
  note rows = percent_change_rounded [of two_month_db, THEN conjunct2, THEN conjunct2, THEN spec]
  from rows [of 0] len have a: "t_percent_change (lag_query two_month_db ! 0) = 0"
    by simp
  from rows [of 1] len t0 t1
  have b: "t_percent_change (lag_query two_month_db ! 1) = sql_round2 ((400 - 300) * 100 / 300)"
    by simp
  from percent_change_rounded [of two_month_db, THEN conjunct1] len
  have c: "length (lag_query two_month_db) = 2" by simp
  from a b c show ?thesis by simp
qed

section \<open>Properties of the ingestion\<close>

lemma rowid_table_Cons:
  "rowid_table key (x # xs) \<longleftrightarrow> (\<forall>y\<in>set xs. key x < key y) \<and> rowid_table key xs"
  by (auto simp: rowid_table_def)

lemma set_insert_or_replace:
  "set (insert_or_replace key r t) \<subseteq> insert r (set t)"
  by (induction t) auto

lemma insert_or_replace_sorted:
  "rowid_table key t \<Longrightarrow> rowid_table key (insert_or_replace key r t)"
proof (induction t)
  case Nil
  then show ?case by (simp add: rowid_table_def)
next
  case (Cons x xs)
  then show ?case
    using set_insert_or_replace [of key r xs]
    by (auto simp: rowid_table_Cons)
qed

lemma insert_or_replace_same_key:
  "key r = key s \<Longrightarrow> insert_or_replace key r (insert_or_replace key s t) = insert_or_replace key r t"
  by (induction t) auto

lemma insert_or_replace_commute:
  "rowid_table key t \<Longrightarrow> key r \<noteq> key s \<Longrightarrow>
   insert_or_replace key r (insert_or_replace key s t) =
   insert_or_replace key s (insert_or_replace key r t)"
  by (induction t) (auto simp: rowid_table_Cons)

lemma upserts_sorted:
  "rowid_table key t \<Longrightarrow> rowid_table key (foldl (\<lambda>t r. insert_or_replace key r t) t data)"
  by (induction data arbitrary: t) (simp_all add: insert_or_replace_sorted)

lemma upserts_commute:
  "rowid_table key t \<Longrightarrow> key r \<notin> key ` set data \<Longrightarrow>
   foldl (\<lambda>t r. insert_or_replace key r t) (insert_or_replace key r t) data =
   insert_or_replace key r (foldl (\<lambda>t r. insert_or_replace key r t) t data)"
proof (induction data arbitrary: t)
  case Nil
  then show ?case by simp
next
  case (Cons s data)
  from Cons.prems have ne: "key s \<noteq> key r" and notin: "key r \<notin> key ` set data" by auto
  have "insert_or_replace key s (insert_or_replace key r t) =
        insert_or_replace key r (insert_or_replace key s t)"
    using Cons.prems(1) ne by (rule insert_or_replace_commute)
  moreover have "rowid_table key (insert_or_replace key s t)"
    using Cons.prems(1) by (rule insert_or_replace_sorted)
  ultimately show ?case using Cons.IH notin by simp
qed

lemma upserts_absorb:
  "rowid_table key t \<Longrightarrow> key r \<in> key ` set data \<Longrightarrow>
   foldl (\<lambda>t r. insert_or_replace key r t) (insert_or_replace key r t) data =
   foldl (\<lambda>t r. insert_or_replace key r t) t data"
proof (induction data arbitrary: t)
  case Nil
  then show ?case by simp
next
  case (Cons s data)
  show ?case
  proof (cases "key s = key r")
    case True
    then show ?thesis by (simp add: insert_or_replace_same_key)
  next
    case False
    with Cons.prems(2) have mem: "key r \<in> key ` set data" by auto
    have "insert_or_replace key s (insert_or_replace key r t) =
          insert_or_replace key r (insert_or_replace key s t)"
      using Cons.prems(1) False by (rule insert_or_replace_commute)
    moreover have "rowid_table key (insert_or_replace key s t)"
      using Cons.prems(1) by (rule insert_or_replace_sorted)
    ultimately show ?thesis using Cons.IH mem by simp
  qed
qed

lemma upserts_idempotent:
  "rowid_table key t \<Longrightarrow>
   foldl (\<lambda>t r. insert_or_replace key r t) (foldl (\<lambda>t r. insert_or_replace key r t) t data) data =
   foldl (\<lambda>t r. insert_or_replace key r t) t data"
proof (induction data arbitrary: t rule: rev_induct)
  case Nil
  then show ?case by simp
next
  case (snoc r data)
  let ?F = "\<lambda>t. foldl (\<lambda>t r. insert_or_replace key r t) t data"
  have sorted: "rowid_table key (?F t)" using snoc.prems by (rule upserts_sorted)
  have "?F (insert_or_replace key r (?F t)) = insert_or_replace key r (?F t) \<or>
        ?F (insert_or_replace key r (?F t)) = ?F t"
  proof (cases "key r \<in> key ` set data")
    case True
    from upserts_absorb [OF sorted True] snoc.IH [OF snoc.prems] show ?thesis by simp
  next
    case False
    from upserts_commute [OF sorted False] snoc.IH [OF snoc.prems] show ?thesis by simp
  qed
  then have "insert_or_replace key r (?F (insert_or_replace key r (?F t))) =
        insert_or_replace key r (?F t)"
    by (auto simp: insert_or_replace_same_key)
  then show ?case by simp
qed

lemma import_table_cases:
  "import_table convert key ints rows t =
     (case traverse convert rows of
        Inl e \<Rightarrow> Inl e
      | Inr data \<Rightarrow>
          if list_all (\<lambda>r. list_all sqlite_integer (ints r)) data
          then Inr (foldl (\<lambda>t r. insert_or_replace key r t) t data)
          else Inl OverflowError)"
  by (simp add: import_table_def bind_err_def executemany_def split: sum.splits)

text \<open>
  Importing a file into the table that the import of the same file produced changes
  nothing; an import that raises does so whatever the table holds.
\<close>

lemma import_table_again:
  assumes "rowid_table key t" and "import_table convert key ints rows t = Inr t'"
  shows "import_table convert key ints rows t' = Inr t' \<and> rowid_table key t'"
  using assms
  by (auto simp: import_table_cases upserts_idempotent upserts_sorted split: sum.splits if_splits)

lemma import_table_raises:
  assumes "import_table convert key ints rows t = Inl e"
  shows "import_table convert key ints rows t' = Inl e"
  using assms by (auto simp: import_table_cases split: sum.splits if_splits)

text \<open>
  Claim C5. Running the ingestion a second time on the same files leaves the database
  as the first run left it, all five tables alike: every row is written by
  \<^verbatim>\<open>INSERT OR REPLACE\<close> under its integer primary key, so the second run replaces each
  row by itself. A run that raises commits nothing, and the second run raises as the
  first did.
\<close>

theorem ingest_idempotent:
  assumes "wf_database db"
  shows "database_after cv files (database_after cv files db) = database_after cv files db"
proof (cases "ingest_to_sqlite cv files db")
  case (Inl e)
  then show ?thesis by (simp add: database_after_def)
next
  case (Inr db1)
  let ?c = "import_table (customer_of_row cv) c_customer_id (\<lambda>r. [c_customer_id r]) (customers_csv files)"
  let ?p = "import_table (product_of_row cv) pr_product_id (\<lambda>r. [pr_product_id r]) (products_csv files)"
  let ?o = "import_table (order_of_row cv) o_order_id (\<lambda>r. [o_order_id r, o_customer_id r]) (orders_csv files)"
  let ?i = "import_table (order_item_of_row cv) oi_item_id
              (\<lambda>r. [oi_item_id r, oi_order_id r, oi_product_id r, oi_quantity r]) (order_items_csv files)"
  let ?y = "import_table (payment_of_row cv) p_payment_id (\<lambda>r. [p_payment_id r, p_order_id r]) (payments_csv files)"
  from Inr obtain cs ps os its ys where
    stages: "?c (customers db) = Inr cs" "?p (products db) = Inr ps" "?o (orders db) = Inr os"
      "?i (order_items db) = Inr its" "?y (payments db) = Inr ys"
    and db1: "db1 = \<lparr> customers = cs, products = ps, orders = os, order_items = its, payments = ys \<rparr>"
    by (auto simp: ingest_to_sqlite_def bind_err_def split: sum.splits)
  from assms have wf: "rowid_table c_customer_id (customers db)" "rowid_table pr_product_id (products db)"
    "rowid_table o_order_id (orders db)" "rowid_table oi_item_id (order_items db)"
    "rowid_table p_payment_id (payments db)"
    by (simp_all add: wf_database_def)
  have again: "?c cs = Inr cs" "?p ps = Inr ps" "?o os = Inr os" "?i its = Inr its" "?y ys = Inr ys"
    using import_table_again [OF wf(1) stages(1)] import_table_again [OF wf(2) stages(2)]
      import_table_again [OF wf(3) stages(3)] import_table_again [OF wf(4) stages(4)]
      import_table_again [OF wf(5) stages(5)]
    by simp_all
  have "ingest_to_sqlite cv files db1 = Inr db1"
    unfolding ingest_to_sqlite_def db1 by (simp add: again bind_err_def)
  with Inr show ?thesis by (simp add: database_after_def)
qed

lemma sample_files_run:
  "database_after plain_conversions sample_files sample_db =
     sample_db \<lparr>
       customers := [\<lparr>c_customer_id = 1, c_customer_name = ''Ann Lee'', c_email = ''lee@example.org'',
                       c_phone_number = ''555-0100'', c_city = ''Pune'', c_country = ''India''\<rparr>],
       products := products sample_db @
                   [\<lparr>pr_product_id = 7, pr_product_name = ''Lamp'', pr_category = ''Home & Kitchen'',
                      pr_price = 21 / 2\<rparr>],
       order_items := \<lparr>oi_item_id = 1, oi_order_id = 1, oi_product_id = 7, oi_quantity = 2,
                         oi_price = 21 / 2\<rparr> # tl (order_items sample_db),
       payments := payments sample_db \<rparr>"
  by code_simp

theorem ingest_idempotent_witness:
  "wf_database sample_db \<and>
   map c_email (customers (database_after plain_conversions sample_files sample_db)) = [''lee@example.org''] \<and>
   database_after plain_conversions sample_files
     (database_after plain_conversions sample_files sample_db) =
   database_after plain_conversions sample_files sample_db"
proof -
  have wf: "wf_database sample_db" by code_simp
  have "map c_email (customers (database_after plain_conversions sample_files sample_db)) =
      [''lee@example.org'']"
    by (simp add: sample_files_run)
  with wf ingest_idempotent [OF wf, of plain_conversions sample_files] show ?thesis by blast
qed

lemma strptime_raises_ValueError: "strptime fmt s = Inl e \<Longrightarrow> e = ValueError"
  by (auto simp: strptime_def split: list.splits prod.splits if_splits)

lemma parse_date_raises_ValueError: "parse_date s = Inl e \<Longrightarrow> e = ValueError"
  by (auto simp: parse_date_def split: sum.splits py_error.splits dest: strptime_raises_ValueError)












end
